theory Spec2Isabelle
  imports Complex_Main
begin

section \<open>Data model\<close>

text \<open>
  Modelled from the spec: the entity declarations (order.entity, order-item.entity,
  product.entity) are imported by orders.service.ts but are not among the source files.
  The fields below are the ones the service reads and writes; the status enumeration
  has \<open>PENDING\<close>, \<open>CANCELLED\<close> and the further statuses an external process assigns.
  Numbers are JavaScript numbers in the source: identifiers, stock and quantities
  are modelled as unbounded integers and monetary values as exact rationals.
  A row's primary key is the key under which its table maps it; the \<open>price\<close> of an
  item row is \<open>item_price\<close> here, to keep it apart from the product's.
\<close>

datatype OrderStatus = PENDING | CANCELLED | OtherStatus string

record Product =
  name :: string
  price :: rat
  stock :: int
  isAvailable :: bool

record Order =
  userId :: int
  total :: rat
  status :: OrderStatus

record OrderItem =
  orderId :: int
  productId :: int
  quantity :: int
  item_price :: rat

text \<open>The request body of order creation (create-order.dto.ts).\<close>

record OrderItemDto =
  dto_productId :: int
  dto_quantity :: int

record CreateOrderDto =
  dto_userId :: int
  dto_items :: "OrderItemDto list"

text \<open>
  The class-validator decorations of the DTO: \<open>@ArrayMinSize(1)\<close> on the items and
  \<open>@Min(1)\<close> on every quantity. The HTTP layer applies them; the service does not.
\<close>

definition valid_dto :: "CreateOrderDto \<Rightarrow> bool" where
  "valid_dto dto \<longleftrightarrow> dto_items dto \<noteq> [] \<and> list_all (\<lambda>d. 1 \<le> dto_quantity d) (dto_items dto)"

subsection \<open>Exceptions\<close>

datatype message =
    Order_not_found int
  | User_not_found int
  | Product_not_found int
  | Product_not_available string
  | Not_enough_stock string
  | Cannot_update_cancelled
  | Only_pending_can_be_cancelled
  | Failed_to_cancel_order

text \<open>
  \<open>Error\<close> stands for every exception that is not an \<open>HttpException\<close>: a fault of the
  driver or of the storage layer, with its own message.
\<close>

datatype exn =
    NotFoundException message
  | BadRequestException message
  | InternalServerErrorException message
  | Error string

fun isHttpException :: "exn \<Rightarrow> bool" where
  "isHttpException (Error m) = False"
| "isHttpException e = True"

subsection \<open>The store and a transaction on it\<close>

record database =
  user_table :: "int set"
  product_table :: "int \<rightharpoonup> Product"
  order_table :: "int \<rightharpoonup> Order"
  orderItem_table :: "OrderItem list"

text \<open>
  The durable state: the committed tables, the generator of order ids (a sequence: it
  is not transactional, a rolled back insert leaves a gap), and what the service's
  logger has written.
\<close>

record system =
  db :: database
  order_seq :: int
  logger :: "exn list"

datatype row = OrderRow int | ProductRow int

text \<open>
  A query runner with an open transaction: the shared durable state, the transaction's
  own view of the tables (its writes go there), the rows it has read under a
  \<open>pessimistic_write\<close> lock, in order, and a schedule of faults: every call through the
  runner's manager, the commit, and the read-back of \<open>create\<close> take the head of the
  schedule and throw \<open>Error m\<close> when that is \<open>Some m\<close>. An exhausted schedule means
  no more faults.
\<close>

record queryRunner =
  sys :: system
  view :: database
  locked :: "row list"
  faults :: "string option list"

definition startTransaction :: "string option list \<Rightarrow> system \<Rightarrow> queryRunner" where
  "startTransaction fs s = \<lparr>sys = s, view = db s, locked = [], faults = fs\<rparr>"

definition rollbackTransaction :: "queryRunner \<Rightarrow> queryRunner" where
  "rollbackTransaction q = q\<lparr>view := db (sys q)\<rparr>"

definition release :: "queryRunner \<Rightarrow> system" where
  "release q = sys q"

definition pending_fault :: "queryRunner \<Rightarrow> string option" where
  "pending_fault q = (case faults q of [] \<Rightarrow> None | f # fs \<Rightarrow> f)"

definition advance :: "queryRunner \<Rightarrow> queryRunner" where
  "advance q = q\<lparr>faults := tl (faults q)\<rparr>"

definition manager_call ::
  "(queryRunner \<Rightarrow> queryRunner \<times> 'a) \<Rightarrow> queryRunner \<Rightarrow> queryRunner \<times> (exn + 'a)" where
  "manager_call f q =
     (case pending_fault q of
        Some m \<Rightarrow> (advance q, Inl (Error m))
      | None \<Rightarrow> (case f (advance q) of (q', r) \<Rightarrow> (q', Inr r)))"

text \<open>A schedule without faults.\<close>

definition no_faults :: "string option list \<Rightarrow> bool" where
  "no_faults fs \<longleftrightarrow> list_all (\<lambda>f. f = None) fs"

definition commitTransaction :: "queryRunner \<Rightarrow> queryRunner \<times> (exn + unit)" where
  "commitTransaction = manager_call (\<lambda>q. (q\<lparr>sys := (sys q)\<lparr>db := view q\<rparr>\<rparr>, ()))"

text \<open>\<open>manager.findOne(Product, {where: {id}, lock: {mode: 'pessimistic_write'}})\<close>\<close>

definition manager_findOne_Product :: "int \<Rightarrow> queryRunner \<Rightarrow> queryRunner \<times> (exn + Product option)" where
  "manager_findOne_Product pid =
     manager_call (\<lambda>q. (q\<lparr>locked := locked q @ [ProductRow pid]\<rparr>, product_table (view q) pid))"

text \<open>\<open>manager.findOne(Order, {where: {id}, lock: {mode: 'pessimistic_write'}})\<close>\<close>

definition manager_lock_Order :: "int \<Rightarrow> queryRunner \<Rightarrow> queryRunner \<times> (exn + Order option)" where
  "manager_lock_Order oid =
     manager_call (\<lambda>q. (q\<lparr>locked := locked q @ [OrderRow oid]\<rparr>, order_table (view q) oid))"

text \<open>
  \<open>manager.findOne(Order, {where: {id}, relations: ['items', 'items.product']})\<close>: the
  order with its item rows. The query of the source has no \<open>ORDER BY\<close>; the rows are
  taken in the order of the table here.
\<close>

definition items_of :: "database \<Rightarrow> int \<Rightarrow> OrderItem list" where
  "items_of d oid = filter (\<lambda>i. orderId i = oid) (orderItem_table d)"

definition manager_findOne_Order ::
  "int \<Rightarrow> queryRunner \<Rightarrow> queryRunner \<times> (exn + (Order \<times> OrderItem list) option)" where
  "manager_findOne_Order oid =
     manager_call (\<lambda>q. (q, map_option (\<lambda>ord. (ord, items_of (view q) oid)) (order_table (view q) oid)))"

text \<open>
  \<open>manager.save(Order, order)\<close> of an entity without an id: an insert, the id taken
  from the sequence.
\<close>

definition manager_insert_Order :: "Order \<Rightarrow> queryRunner \<Rightarrow> queryRunner \<times> (exn + int)" where
  "manager_insert_Order ord =
     manager_call (\<lambda>q.
       (q\<lparr>sys := (sys q)\<lparr>order_seq := order_seq (sys q) + 1\<rparr>,
          view := (view q)\<lparr>order_table := (order_table (view q))(order_seq (sys q) \<mapsto> ord)\<rparr>\<rparr>,
        order_seq (sys q)))"

text \<open>\<open>manager.save\<close> of entities that have their ids: the rows are written.\<close>

definition manager_save_Order :: "int \<Rightarrow> Order \<Rightarrow> queryRunner \<Rightarrow> queryRunner \<times> (exn + unit)" where
  "manager_save_Order oid ord =
     manager_call (\<lambda>q. (q\<lparr>view := (view q)\<lparr>order_table := (order_table (view q))(oid \<mapsto> ord)\<rparr>\<rparr>, ()))"

definition manager_save_OrderItems :: "OrderItem list \<Rightarrow> queryRunner \<Rightarrow> queryRunner \<times> (exn + unit)" where
  "manager_save_OrderItems its =
     manager_call (\<lambda>q. (q\<lparr>view := (view q)\<lparr>orderItem_table := orderItem_table (view q) @ its\<rparr>\<rparr>, ()))"

definition manager_save_Product :: "int \<Rightarrow> Product \<Rightarrow> queryRunner \<Rightarrow> queryRunner \<times> (exn + unit)" where
  "manager_save_Product pid p =
     manager_call (\<lambda>q. (q\<lparr>view := (view q)\<lparr>product_table := (product_table (view q))(pid \<mapsto> p)\<rparr>\<rparr>, ()))"

definition manager_save_Products :: "(int \<rightharpoonup> Product) \<Rightarrow> queryRunner \<Rightarrow> queryRunner \<times> (exn + unit)" where
  "manager_save_Products ps =
     manager_call (\<lambda>q. (q\<lparr>view := (view q)\<lparr>product_table := product_table (view q) ++ ps\<rparr>\<rparr>, ()))"

text \<open>
  Modelled from the spec: users.service.ts is not among the source files. The spec has
  it as a lookup from a user id to the user, failing with NotFound. Its result is used
  for the id only.
\<close>

definition usersService_findOne :: "int \<Rightarrow> queryRunner \<Rightarrow> queryRunner \<times> (exn + int)" where
  "usersService_findOne uid q =
     (if uid \<in> user_table (db (sys q)) then (q, Inr uid)
      else (q, Inl (NotFoundException (User_not_found uid))))"

section \<open>The orders service\<close>

text \<open>\<open>findOne\<close>: a read of the committed tables through the repository.\<close>

type_synonym order_view = "int \<times> Order \<times> OrderItem list"

definition findOne :: "int \<Rightarrow> system \<Rightarrow> exn + order_view" where
  "findOne oid s =
     (case order_table (db s) oid of
        None \<Rightarrow> Inl (NotFoundException (Order_not_found oid))
      | Some ord \<Rightarrow> Inr (oid, ord, items_of (db s) oid))"

subsection \<open>create\<close>

text \<open>The locals of the loop over \<open>createOrderDto.items\<close>.\<close>

record locals =
  orderItems :: "OrderItem list"
  updatedProducts :: "int \<rightharpoonup> Product"
  loop_total :: rat

text \<open>Before the loop: \<open>orderItems = []\<close>, \<open>updatedProducts = new Map()\<close>, \<open>total = 0\<close>.\<close>

definition empty_locals :: locals where
  "empty_locals = \<lparr>orderItems = [], updatedProducts = Map.empty, loop_total = 0\<rparr>"

text \<open>\<open>updatedProducts.get(id) || (await manager.findOne(Product, ...))\<close>\<close>

definition get_product :: "int \<Rightarrow> locals \<Rightarrow> queryRunner \<Rightarrow> queryRunner \<times> (exn + Product option)" where
  "get_product pid l q =
     (case updatedProducts l pid of
        Some cached \<Rightarrow> (q, Inr (Some cached))
      | None \<Rightarrow> manager_findOne_Product pid q)"

text \<open>
  The end of the loop body, once the checks have passed: the item is pushed, the total
  grows, the product's stock is decremented, its flag recomputed, and the product is
  put into \<open>updatedProducts\<close>. The total is added up exactly here; the source adds
  doubles (\<open>total += Number(product.price) * itemDto.quantity\<close>), so the value of a
  total stands for the double the source computes only where the two agree.
\<close>

definition add_item :: "int \<Rightarrow> OrderItemDto \<Rightarrow> Product \<Rightarrow> locals \<Rightarrow> locals" where
  "add_item savedOrderId itemDto product l =
     l\<lparr>orderItems := orderItems l @
          [\<lparr>orderId = savedOrderId, productId = dto_productId itemDto,
            quantity = dto_quantity itemDto, item_price = price product\<rparr>],
       loop_total := loop_total l + price product * of_int (dto_quantity itemDto),
       updatedProducts := (updatedProducts l)(dto_productId itemDto \<mapsto>
          product\<lparr>stock := stock product - dto_quantity itemDto,
                  isAvailable := (0 < stock product - dto_quantity itemDto)\<rparr>)\<rparr>"

text \<open>The three checks of the loop body on the product that was found.\<close>

definition reserve :: "int \<Rightarrow> OrderItemDto \<Rightarrow> Product option \<Rightarrow> locals \<Rightarrow> exn + locals" where
  "reserve savedOrderId itemDto found l =
     (case found of
        None \<Rightarrow> Inl (NotFoundException (Product_not_found (dto_productId itemDto)))
      | Some product \<Rightarrow>
          if \<not> isAvailable product then
            Inl (BadRequestException (Product_not_available (name product)))
          else if stock product < dto_quantity itemDto then
            Inl (BadRequestException (Not_enough_stock (name product)))
          else Inr (add_item savedOrderId itemDto product l))"

fun create_loop ::
  "int \<Rightarrow> OrderItemDto list \<Rightarrow> locals \<Rightarrow> queryRunner \<Rightarrow> queryRunner \<times> (exn + locals)" where
  "create_loop savedOrderId [] l q = (q, Inr l)"
| "create_loop savedOrderId (itemDto # rest) l q =
     (case get_product (dto_productId itemDto) l q of
        (q', Inl e) \<Rightarrow> (q', Inl e)
      | (q', Inr found) \<Rightarrow>
          (case reserve savedOrderId itemDto found l of
             Inl e \<Rightarrow> (q', Inl e)
           | Inr l' \<Rightarrow> create_loop savedOrderId rest l' q'))"

text \<open>The body of the \<open>try\<close> block up to the commit; its value is \<open>savedOrder.id\<close>.\<close>

definition create_try :: "CreateOrderDto \<Rightarrow> queryRunner \<Rightarrow> queryRunner \<times> (exn + int)" where
  "create_try createOrderDto q0 =
     (case usersService_findOne (dto_userId createOrderDto) q0 of
        (q1, Inl e) \<Rightarrow> (q1, Inl e)
      | (q1, Inr user) \<Rightarrow>
     (case manager_insert_Order \<lparr>userId = user, total = 0, status = PENDING\<rparr> q1 of
        (q2, Inl e) \<Rightarrow> (q2, Inl e)
      | (q2, Inr savedOrderId) \<Rightarrow>
     (case create_loop savedOrderId (dto_items createOrderDto) empty_locals q2 of
        (q3, Inl e) \<Rightarrow> (q3, Inl e)
      | (q3, Inr l) \<Rightarrow>
     (case manager_save_OrderItems (orderItems l) q3 of
        (q4, Inl e) \<Rightarrow> (q4, Inl e)
      | (q4, Inr u) \<Rightarrow>
     (case manager_save_Products (updatedProducts l) q4 of
        (q5, Inl e) \<Rightarrow> (q5, Inl e)
      | (q5, Inr u) \<Rightarrow>
     (case manager_save_Order savedOrderId
             \<lparr>userId = user, total = loop_total l, status = PENDING\<rparr> q5 of
        (q6, Inl e) \<Rightarrow> (q6, Inl e)
      | (q6, Inr u) \<Rightarrow>
     (case commitTransaction q6 of
        (q7, Inl e) \<Rightarrow> (q7, Inl e)
      | (q7, Inr u) \<Rightarrow> (q7, Inr savedOrderId))))))))"

text \<open>
  The read-back \<open>this.findOne(savedOrder.id)\<close> that follows the commit: a query through
  the repository, which can fail as any other; it takes the next entry of the schedule.
\<close>

definition repository_findOne :: "int \<Rightarrow> queryRunner \<Rightarrow> exn + order_view" where
  "repository_findOne oid q =
     (case pending_fault q of
        Some m \<Rightarrow> Inl (Error m)
      | None \<Rightarrow> findOne oid (sys q))"

text \<open>
  The \<open>try\<close> and the \<open>catch\<close> of \<open>create\<close>: an exception of the body is caught, the
  transaction rolled back and the exception thrown again. The read-back comes after
  the commit and its promise is returned, not awaited: when it is rejected, nothing is
  rolled back.
\<close>

definition create_run ::
  "string option list \<Rightarrow> CreateOrderDto \<Rightarrow> system \<Rightarrow> queryRunner \<times> (exn + order_view)" where
  "create_run fs createOrderDto s =
     (case create_try createOrderDto (startTransaction fs s) of
        (q, Inr savedOrderId) \<Rightarrow> (q, repository_findOne savedOrderId q)
      | (q, Inl e) \<Rightarrow> (rollbackTransaction q, Inl e))"

text \<open>\<open>create\<close>: the above, and the \<open>finally\<close> that releases the runner.\<close>

definition create :: "string option list \<Rightarrow> CreateOrderDto \<Rightarrow> system \<Rightarrow> system \<times> (exn + order_view)" where
  "create fs createOrderDto s =
     (case create_run fs createOrderDto s of (q, r) \<Rightarrow> (release q, r))"

subsection \<open>cancel\<close>

text \<open>
  The loop over \<open>order.items\<close>: a product that is not found is skipped. The order was
  loaded with its items and their products; saving it afterwards is taken to write the
  order row only, as TypeORM does for relations that are not declared cascading.
\<close>

fun cancel_loop :: "OrderItem list \<Rightarrow> queryRunner \<Rightarrow> queryRunner \<times> (exn + unit)" where
  "cancel_loop [] q = (q, Inr ())"
| "cancel_loop (item # rest) q =
     (case manager_findOne_Product (productId item) q of
        (q1, Inl e) \<Rightarrow> (q1, Inl e)
      | (q1, Inr None) \<Rightarrow> cancel_loop rest q1
      | (q1, Inr (Some product)) \<Rightarrow>
          (case manager_save_Product (productId item)
                  (product\<lparr>stock := stock product + quantity item, isAvailable := True\<rparr>) q1 of
             (q2, Inl e) \<Rightarrow> (q2, Inl e)
           | (q2, Inr u) \<Rightarrow> cancel_loop rest q2))"

definition cancel_try :: "int \<Rightarrow> queryRunner \<Rightarrow> queryRunner \<times> (exn + order_view)" where
  "cancel_try oid q0 =
     (case manager_lock_Order oid q0 of
        (q1, Inl e) \<Rightarrow> (q1, Inl e)
      | (q1, Inr u) \<Rightarrow>
     (case manager_findOne_Order oid q1 of
        (q2, Inl e) \<Rightarrow> (q2, Inl e)
      | (q2, Inr None) \<Rightarrow> (q2, Inl (NotFoundException (Order_not_found oid)))
      | (q2, Inr (Some (ord, its))) \<Rightarrow>
          if status ord \<noteq> PENDING then
            (q2, Inl (BadRequestException Only_pending_can_be_cancelled))
          else
     (case cancel_loop its q2 of
        (q3, Inl e) \<Rightarrow> (q3, Inl e)
      | (q3, Inr u) \<Rightarrow>
     (case manager_save_Order oid (ord\<lparr>status := CANCELLED\<rparr>) q3 of
        (q4, Inl e) \<Rightarrow> (q4, Inl e)
      | (q4, Inr u) \<Rightarrow>
     (case commitTransaction q4 of
        (q5, Inl e) \<Rightarrow> (q5, Inl e)
      | (q5, Inr u) \<Rightarrow> (q5, Inr (oid, ord\<lparr>status := CANCELLED\<rparr>, its)))))))"

definition logger_error :: "exn \<Rightarrow> queryRunner \<Rightarrow> queryRunner" where
  "logger_error e q = q\<lparr>sys := (sys q)\<lparr>logger := logger (sys q) @ [e]\<rparr>\<rparr>"

definition cancel :: "string option list \<Rightarrow> int \<Rightarrow> system \<Rightarrow> system \<times> (exn + order_view)" where
  "cancel fs oid s =
     (case cancel_try oid (startTransaction fs s) of
        (q, Inr savedOrder) \<Rightarrow> (release q, Inr savedOrder)
      | (q, Inl e) \<Rightarrow>
          (release (logger_error e (rollbackTransaction q)),
           Inl (if isHttpException e then e
                else InternalServerErrorException Failed_to_cancel_order)))"

subsection \<open>updateStatus\<close>

definition repository_save_Order :: "int \<Rightarrow> Order \<Rightarrow> system \<Rightarrow> system" where
  "repository_save_Order oid ord s = s\<lparr>db := (db s)\<lparr>order_table := (order_table (db s))(oid \<mapsto> ord)\<rparr>\<rparr>"

definition updateStatus ::
  "string option list \<Rightarrow> int \<Rightarrow> OrderStatus \<Rightarrow> system \<Rightarrow> system \<times> (exn + order_view)" where
  "updateStatus fs oid new_status s =
     (if new_status = CANCELLED then cancel fs oid s
      else
        (case findOne oid s of
           Inl e \<Rightarrow> (s, Inl e)
         | Inr (k, ord, its) \<Rightarrow>
             if status ord = CANCELLED then
               (s, Inl (BadRequestException Cannot_update_cancelled))
             else
               (repository_save_Order oid (ord\<lparr>status := new_status\<rparr>) s,
                Inr (oid, ord\<lparr>status := new_status\<rparr>, its))))"

section \<open>Notions the properties are stated with\<close>

text \<open>
  The product table as the open transaction of \<open>create\<close> sees it inside the loop: the
  row in \<open>updatedProducts\<close> when there is one, the stored row otherwise.
\<close>

definition tx_products :: "locals \<Rightarrow> database \<Rightarrow> int \<rightharpoonup> Product" where
  "tx_products l d = product_table d ++ updatedProducts l"

text \<open>
  What holds of the locks inside the loop of \<open>create\<close>: no row was read twice, and
  every product that was read is in \<open>updatedProducts\<close>.
\<close>

definition reads_cached :: "locals \<Rightarrow> queryRunner \<Rightarrow> bool" where
  "reads_cached l q \<longleftrightarrow>
     distinct (locked q) \<and> (\<forall>pid. ProductRow pid \<in> set (locked q) \<longrightarrow> pid \<in> dom (updatedProducts l)) \<and>
     (\<forall>oid. OrderRow oid \<notin> set (locked q))"

text \<open>The quantity that the lines of a request ask of one product, all lines together.\<close>

definition requested :: "int \<Rightarrow> OrderItemDto list \<Rightarrow> int" where
  "requested pid ds = sum_list (map dto_quantity (filter (\<lambda>d. dto_productId d = pid) ds))"

definition reserved :: "int \<Rightarrow> OrderItemDto list \<Rightarrow> Product \<Rightarrow> Product" where
  "reserved pid ds p =
     p\<lparr>stock := stock p - requested pid ds,
       isAvailable := (if pid \<in> set (map dto_productId ds) then 0 < stock p - requested pid ds
                       else isAvailable p)\<rparr>"

text \<open>The item rows a request turns into: one per line, in the order of the lines.\<close>

definition lines_of :: "OrderItem list \<Rightarrow> (int \<times> int) list" where
  "lines_of its = map (\<lambda>i. (productId i, quantity i)) its"

definition dto_lines :: "OrderItemDto list \<Rightarrow> (int \<times> int) list" where
  "dto_lines ds = map (\<lambda>d. (dto_productId d, dto_quantity d)) ds"

text \<open>An item row carries the price of the product row it refers to.\<close>

definition priced :: "database \<Rightarrow> OrderItem \<Rightarrow> bool" where
  "priced v i \<longleftrightarrow> (\<exists>p. product_table v (productId i) = Some p \<and> item_price i = price p)"

text \<open>What cancelling gives back: per item, and per product over all items.\<close>

definition restock :: "OrderItem \<Rightarrow> (int \<rightharpoonup> Product) \<Rightarrow> (int \<rightharpoonup> Product)" where
  "restock i m =
     (case m (productId i) of
        None \<Rightarrow> m
      | Some p \<Rightarrow> m(productId i \<mapsto> p\<lparr>stock := stock p + quantity i, isAvailable := True\<rparr>))"

definition restored :: "int \<Rightarrow> OrderItem list \<Rightarrow> int" where
  "restored pid its = sum_list (map quantity (filter (\<lambda>i. productId i = pid) its))"

definition restocked :: "int \<Rightarrow> OrderItem list \<Rightarrow> Product \<Rightarrow> Product" where
  "restocked pid its p =
     p\<lparr>stock := stock p + restored pid its,
       isAvailable := (pid \<in> set (map productId its) \<or> isAvailable p)\<rparr>"

text \<open>Invariant I2 of the data model, on a product row and on a table.\<close>

definition stock_ok :: "Product \<Rightarrow> bool" where
  "stock_ok p \<longleftrightarrow> 0 \<le> stock p \<and> isAvailable p = (0 < stock p)"

definition I2 :: "database \<Rightarrow> bool" where
  "I2 d \<longleftrightarrow> (\<forall>pid p. product_table d pid = Some p \<longrightarrow> stock_ok p)"

text \<open>
  Two facts of the stored rows that the engine relies on: item quantities are positive
  (the DTO layer admits no other), and item rows belong to orders whose ids the
  sequence has already given out.
\<close>

definition items_positive :: "database \<Rightarrow> bool" where
  "items_positive d \<longleftrightarrow> list_all (\<lambda>i. 1 \<le> quantity i) (orderItem_table d)"

definition ids_below_seq :: "system \<Rightarrow> bool" where
  "ids_below_seq s \<longleftrightarrow> list_all (\<lambda>i. orderId i < order_seq s) (orderItem_table (db s))"

text \<open>
  The committed states the engine reaches: from a store whose rows satisfy the above,
  by creations with a request that passed the DTO validation, cancellations and status
  updates, under any schedule of faults.
\<close>

inductive reachable :: "system \<Rightarrow> bool" where
  initial: "I2 (db s) \<Longrightarrow> items_positive (db s) \<Longrightarrow> reachable s"
| by_create: "reachable s \<Longrightarrow> valid_dto dto \<Longrightarrow> reachable (fst (create fs dto s))"
| by_cancel: "reachable s \<Longrightarrow> reachable (fst (cancel fs oid s))"
| by_updateStatus: "reachable s \<Longrightarrow> reachable (fst (updateStatus fs oid new_status s))"

section \<open>A shop to run the service on\<close>

definition widget :: Product where
  "widget = \<lparr>name = ''widget'', price = 999 / 100, stock = 5, isAvailable = True\<rparr>"

definition shop :: system where
  "shop = \<lparr>db = \<lparr>user_table = {1}, product_table = [10 \<mapsto> widget],
                  order_table = Map.empty, orderItem_table = []\<rparr>,
           order_seq = 1, logger = []\<rparr>"

text \<open>The shop after user 1 has ordered two of product 10, and after an order of two lines.\<close>

definition sold :: system where
  "sold = \<lparr>db = \<lparr>user_table = {1}, product_table = [10 \<mapsto> widget\<lparr>stock := 3\<rparr>],
                  order_table = [1 \<mapsto> \<lparr>userId = 1, total = 1998 / 100, status = PENDING\<rparr>],
                  orderItem_table =
                    [\<lparr>orderId = 1, productId = 10, quantity = 2, item_price = 999 / 100\<rparr>]\<rparr>,
           order_seq = 2, logger = []\<rparr>"

definition sold_twice :: system where
  "sold_twice = \<lparr>db = \<lparr>user_table = {1}, product_table = [10 \<mapsto> widget\<lparr>stock := 2\<rparr>],
                  order_table = [1 \<mapsto> \<lparr>userId = 1, total = 2997 / 100, status = PENDING\<rparr>],
                  orderItem_table =
                    [\<lparr>orderId = 1, productId = 10, quantity = 2, item_price = 999 / 100\<rparr>,
                     \<lparr>orderId = 1, productId = 10, quantity = 1, item_price = 999 / 100\<rparr>]\<rparr>,
           order_seq = 2, logger = []\<rparr>"

definition line :: "int \<Rightarrow> int \<Rightarrow> OrderItemDto" where
  "line pid n = \<lparr>dto_productId = pid, dto_quantity = n\<rparr>"

definition request :: "int \<Rightarrow> OrderItemDto list \<Rightarrow> CreateOrderDto" where
  "request uid ls = \<lparr>dto_userId = uid, dto_items = ls\<rparr>"

section \<open>Calls through the manager\<close>

lemma advance_simps [simp]:
  "sys (advance q) = sys q" "view (advance q) = view q" "locked (advance q) = locked q"
  by (simp_all add: advance_def)

lemma no_faults_step:
  "no_faults (faults q) \<Longrightarrow> pending_fault q = None \<and> no_faults (faults (advance q))"
  by (cases "faults q") (auto simp: no_faults_def pending_fault_def advance_def)

lemma manager_call_Inr [simp]:
  "manager_call f q = (q', Inr r) \<longleftrightarrow> pending_fault q = None \<and> f (advance q) = (q', r)"
  by (auto simp: manager_call_def split: option.splits prod.splits)

lemma manager_call_Inl [simp]:
  "manager_call f q = (q', Inl e) \<longleftrightarrow> (\<exists>m. pending_fault q = Some m \<and> q' = advance q \<and> e = Error m)"
  by (auto simp: manager_call_def split: option.splits prod.splits)

lemma manager_call_ok:
  "pending_fault q = None \<Longrightarrow> manager_call f q = (fst (f (advance q)), Inr (snd (f (advance q))))"
  by (simp add: manager_call_def split: prod.splits)

lemmas manager_defs =
  commitTransaction_def manager_findOne_Product_def manager_lock_Order_def manager_findOne_Order_def
  manager_insert_Order_def manager_save_Order_def manager_save_OrderItems_def
  manager_save_Product_def manager_save_Products_def

section \<open>The loop of create\<close>

lemma get_product_Inr:
  "get_product pid l q = (q', Inr found) \<Longrightarrow>
     found = tx_products l (view q) pid \<and> view q' = view q \<and> sys q' = sys q"
  by (auto simp: get_product_def tx_products_def manager_defs map_add_def split: option.splits)

lemma get_product_Inl:
  "get_product pid l q = (q', Inl e) \<Longrightarrow>
     (\<exists>m. e = Error m \<and> pending_fault q = Some m) \<and> q' = advance q"
  by (auto simp: get_product_def manager_defs split: option.splits)

lemma reserve_Inr:
  "reserve oid d found l = Inr l' \<longleftrightarrow>
     (\<exists>p. found = Some p \<and> isAvailable p \<and> dto_quantity d \<le> stock p \<and> l' = add_item oid d p l)"
  by (auto simp: reserve_def split: option.splits)

lemma add_item_simps [simp]:
  "orderItems (add_item oid d p l) = orderItems l @
     [\<lparr>orderId = oid, productId = dto_productId d, quantity = dto_quantity d, item_price = price p\<rparr>]"
  "loop_total (add_item oid d p l) = loop_total l + price p * of_int (dto_quantity d)"
  "updatedProducts (add_item oid d p l) = (updatedProducts l)(dto_productId d \<mapsto>
     p\<lparr>stock := stock p - dto_quantity d, isAvailable := (0 < stock p - dto_quantity d)\<rparr>)"
  by (simp_all add: add_item_def)

lemma tx_products_add_item:
  "tx_products (add_item oid d p l) v = (tx_products l v)(dto_productId d \<mapsto>
     p\<lparr>stock := stock p - dto_quantity d, isAvailable := (0 < stock p - dto_quantity d)\<rparr>)"
  by (simp add: tx_products_def)

lemma create_loop_Cons_Inr:
  assumes "create_loop oid (d # ds) l q = (q', Inr l')"
  obtains p q1 where "tx_products l (view q) (dto_productId d) = Some p"
    and "isAvailable p" and "dto_quantity d \<le> stock p"
    and "view q1 = view q" and "sys q1 = sys q"
    and "get_product (dto_productId d) l q = (q1, Inr (Some p))"
    and "create_loop oid ds (add_item oid d p l) q1 = (q', Inr l')"
proof (cases "get_product (dto_productId d) l q")
  case (Pair q1 r1)
  show ?thesis
  proof (cases r1)
    case (Inl e)
    with Pair assms show ?thesis by simp
  next
    case (Inr found)
    with Pair have f: "found = tx_products l (view q) (dto_productId d)"
      "view q1 = view q" "sys q1 = sys q"
      by (auto dest: get_product_Inr)
    show ?thesis
    proof (cases "reserve oid d found l")
      case (Inl e)
      with Pair Inr assms show ?thesis by simp
    next
      case r: (Inr l1)
      then obtain p where p: "found = Some p" "isAvailable p" "dto_quantity d \<le> stock p"
        "l1 = add_item oid d p l"
        by (auto simp: reserve_Inr)
      from Pair Inr r assms have "create_loop oid ds l1 q1 = (q', Inr l')" by simp
      with p f Pair Inr that show ?thesis by metis
    qed
  qed
qed

lemma create_loop_frame:
  "create_loop oid ds l q = (q', r) \<Longrightarrow> view q' = view q \<and> sys q' = sys q"
proof (induction ds arbitrary: l q)
  case Nil
  then show ?case by simp
next
  case (Cons d ds)
  show ?case
  proof (cases "get_product (dto_productId d) l q")
    case (Pair q1 r1)
    show ?thesis
    proof (cases r1)
      case (Inl e)
      with Pair Cons.prems show ?thesis by (auto dest: get_product_Inl)
    next
      case (Inr found)
      with Pair have f: "view q1 = view q" "sys q1 = sys q" by (auto dest: get_product_Inr)
      show ?thesis
      proof (cases "reserve oid d found l")
        case (Inl e)
        with Pair Inr Cons.prems f show ?thesis by auto
      next
        case r: (Inr l1)
        with Pair Inr Cons.prems have "create_loop oid ds l1 q1 = (q', r)" by simp
        from Cons.IH [OF this] f show ?thesis by simp
      qed
    qed
  qed
qed

text \<open>A property of the locals that every passed line keeps holds after the loop.\<close>

lemma create_loop_invariant:
  assumes "create_loop oid ds l q = (q', Inr l')" and "I l"
    and "\<And>d p l. I l \<Longrightarrow> d \<in> set ds \<Longrightarrow> tx_products l (view q) (dto_productId d) = Some p \<Longrightarrow>
          isAvailable p \<Longrightarrow> dto_quantity d \<le> stock p \<Longrightarrow> I (add_item oid d p l)"
  shows "I l'"
  using assms
proof (induction ds arbitrary: l q)
  case Nil
  then show ?case by simp
next
  case (Cons d ds)
  from Cons.prems(1) obtain p q1 where p: "tx_products l (view q) (dto_productId d) = Some p"
    "isAvailable p" "dto_quantity d \<le> stock p" "view q1 = view q"
    "create_loop oid ds (add_item oid d p l) q1 = (q', Inr l')"
    by (rule create_loop_Cons_Inr)
  have "I (add_item oid d p l)"
    using Cons.prems(2) p(1-3) by (intro Cons.prems(3)) simp_all
  then show ?case
    using p(4,5) Cons.prems(3) by (intro Cons.IH [of "add_item oid d p l" q1]) simp_all
qed

lemma create_loop_lines:
  "create_loop oid ds l q = (q', Inr l') \<Longrightarrow>
     \<exists>new. orderItems l' = orderItems l @ new \<and> lines_of new = dto_lines ds"
proof (induction ds arbitrary: l q)
  case Nil
  then show ?case by (simp add: lines_of_def dto_lines_def)
next
  case (Cons d ds)
  from Cons.prems obtain p q1 where
    "create_loop oid ds (add_item oid d p l) q1 = (q', Inr l')"
    by (rule create_loop_Cons_Inr)
  from Cons.IH [OF this] show ?case
    by (auto simp: lines_of_def dto_lines_def)
qed

lemma reserved_Nil [simp]: "reserved pid [] p = p"
  by (simp add: reserved_def requested_def)

lemma requested_notin:
  "pid \<notin> set (map dto_productId ds) \<Longrightarrow> requested pid ds = 0"
  by (induction ds) (auto simp: requested_def)

lemma requested_Cons:
  "requested pid (d # ds) = (if dto_productId d = pid then dto_quantity d else 0) + requested pid ds"
  by (simp add: requested_def)

lemma reserved_Cons_other:
  "dto_productId d \<noteq> pid \<Longrightarrow> reserved pid (d # ds) p = reserved pid ds p"
  by (auto simp: reserved_def requested_Cons)

lemma reserved_Cons_same:
  "reserved (dto_productId d) (d # ds) p =
     reserved (dto_productId d) ds
       (p\<lparr>stock := stock p - dto_quantity d, isAvailable := (0 < stock p - dto_quantity d)\<rparr>)"
  by (auto simp: reserved_def requested_Cons requested_notin algebra_simps)

lemma create_loop_tx_products:
  "create_loop oid ds l q = (q', Inr l') \<Longrightarrow>
     tx_products l' (view q) pid = map_option (reserved pid ds) (tx_products l (view q) pid)"
proof (induction ds arbitrary: l q)
  case Nil
  then show ?case by (simp add: option.map_ident map_option.identity cong: option.map_cong)
next
  case (Cons d ds)
  from Cons.prems obtain p q1 where p: "tx_products l (view q) (dto_productId d) = Some p"
    "view q1 = view q"
    "create_loop oid ds (add_item oid d p l) q1 = (q', Inr l')"
    by (rule create_loop_Cons_Inr)
  from Cons.IH [OF p(3)] p(1,2) show ?case
    by (cases "dto_productId d = pid")
      (auto simp: tx_products_add_item reserved_Cons_other reserved_Cons_same cong: option.map_cong)
qed

lemma create_loop_cached:
  "create_loop oid ds l q = (q', Inr l') \<Longrightarrow>
     pid \<in> dom (updatedProducts l) \<union> set (map dto_productId ds) \<Longrightarrow> pid \<in> dom (updatedProducts l')"
proof (induction ds arbitrary: l q)
  case Nil
  then show ?case by simp
next
  case (Cons d ds)
  from Cons.prems(1) obtain p q1 where
    "create_loop oid ds (add_item oid d p l) q1 = (q', Inr l')"
    by (rule create_loop_Cons_Inr)
  moreover have "pid \<in> dom (updatedProducts (add_item oid d p l)) \<union> set (map dto_productId ds)"
    using Cons.prems(2) by auto
  ultimately show ?case by (rule Cons.IH)
qed


section \<open>The transaction of create\<close>

lemma create_try_Inl:
  assumes "create_try dto q = (q', Inl e)"
  shows "db (sys q') = db (sys q)"
  using assms
  by (auto simp: create_try_def usersService_findOne_def manager_defs
      split: prod.splits sum.splits if_splits dest!: create_loop_frame)

lemma create_try_Inr:
  assumes "create_try dto q = (q', Inr oid)"
  shows "oid = order_seq (sys q) \<and> dto_userId dto \<in> user_table (db (sys q)) \<and>
    (\<exists>l q2 q3. create_loop oid (dto_items dto) empty_locals q2 = (q3, Inr l) \<and>
       view q2 = (view q)\<lparr>order_table := (order_table (view q))(oid \<mapsto>
            \<lparr>userId = dto_userId dto, total = 0, status = PENDING\<rparr>)\<rparr> \<and>
       locked q2 = locked q \<and> locked q' = locked q3 \<and>
       sys q' = (sys q)\<lparr>order_seq := order_seq (sys q) + 1,
            db := (view q)\<lparr>order_table := (order_table (view q))(oid \<mapsto>
                      \<lparr>userId = dto_userId dto, total = loop_total l, status = PENDING\<rparr>),
                    orderItem_table := orderItem_table (view q) @ orderItems l,
                    product_table := product_table (view q) ++ updatedProducts l\<rparr>\<rparr>)"
  using assms
  apply (clarsimp simp: create_try_def usersService_findOne_def manager_defs
      split: prod.splits sum.splits if_splits)
  apply (frule create_loop_frame)
  apply (rule exI, rule exI, rule exI)
  apply (rule conjI, assumption)
  apply (simp add: advance_def)
  done


lemma create_try_Inr_view:
  assumes "create_try dto q = (q', Inr oid)"
  shows "view q' = db (sys q')"
  using assms
  by (auto simp: create_try_def usersService_findOne_def manager_defs
      split: prod.splits sum.splits if_splits)

lemmas create_defs = create_def create_run_def repository_findOne_def

lemma create_state:
  "fst (create fs dto s) = sys (fst (create_try dto (startTransaction fs s)))"
  by (cases "create_try dto (startTransaction fs s)")
    (auto simp: create_def create_run_def release_def rollbackTransaction_def split: sum.splits)

lemma create_rolled_back:
  assumes "create_try dto (startTransaction fs s) = (q, Inl e)"
  shows "create fs dto s = (sys q, Inl e) \<and> db (sys q) = db s \<and> logger (sys q) = logger s \<and>
     order_seq s \<le> order_seq (sys q)"
proof -
  from assms have "db (sys q) = db s"
    by (auto dest!: create_try_Inl simp: startTransaction_def)
  moreover have "logger (sys q) = logger s \<and> order_seq s \<le> order_seq (sys q)"
    using assms
    by (auto simp: create_try_def usersService_findOne_def manager_defs startTransaction_def
        split: prod.splits sum.splits if_splits dest!: create_loop_frame)
  ultimately show ?thesis
    using assms by (simp add: create_def create_run_def release_def rollbackTransaction_def)
qed

lemma create_committed:
  assumes "create_try dto (startTransaction fs s) = (q, Inr oid)"
  shows "oid = order_seq s \<and> dto_userId dto \<in> user_table (db s) \<and>
    create fs dto s = (sys q, repository_findOne oid q) \<and> view q = db (sys q) \<and>
    (\<exists>l q2 q3. create_loop (order_seq s) (dto_items dto) empty_locals q2 = (q3, Inr l) \<and>
       view q2 = (db s)\<lparr>order_table := (order_table (db s))(order_seq s \<mapsto>
            \<lparr>userId = dto_userId dto, total = 0, status = PENDING\<rparr>)\<rparr> \<and>
       sys q = s\<lparr>order_seq := order_seq s + 1,
            db := (db s)\<lparr>order_table := (order_table (db s))(order_seq s \<mapsto>
                      \<lparr>userId = dto_userId dto, total = loop_total l, status = PENDING\<rparr>),
                    orderItem_table := orderItem_table (db s) @ orderItems l,
                    product_table := product_table (db s) ++ updatedProducts l\<rparr>\<rparr>)"
proof -
  have c: "create fs dto s = (sys q, repository_findOne oid q)"
    using assms by (simp add: create_def create_run_def release_def)
  from create_try_Inr_view [OF assms] have v: "view q = db (sys q)" .
  from create_try_Inr [OF assms] c v show ?thesis
    apply (clarsimp simp: startTransaction_def)
    subgoal for l q2 q3
      apply (rule exI [of _ l], rule exI [of _ q2])
      apply auto
      done
    done
qed

lemma create_Inl:
  assumes "create fs dto s = (s', Inl e)" and "isHttpException e"
  shows "db s' = db s \<and> logger s' = logger s"
proof (cases "create_try dto (startTransaction fs s)")
  case (Pair q r)
  show ?thesis
  proof (cases r)
    case (Inl e')
    from create_rolled_back [OF Pair [unfolded Inl]] assms(1) show ?thesis
      by simp
  next
    case (Inr oid)
    from create_committed [OF Pair [unfolded Inr]]
    have c: "create fs dto s = (sys q, repository_findOne oid q)"
      and "order_table (db (sys q)) oid \<noteq> None"
      by auto
    with assms show ?thesis
      by (auto simp: repository_findOne_def findOne_def split: option.splits)
  qed
qed

lemma create_Inr:
  assumes "create fs dto s = (s', Inr r)"
  shows "dto_userId dto \<in> user_table (db s) \<and>
    (\<exists>l q2 q3. create_loop (order_seq s) (dto_items dto) empty_locals q2 = (q3, Inr l) \<and>
       view q2 = (db s)\<lparr>order_table := (order_table (db s))(order_seq s \<mapsto>
            \<lparr>userId = dto_userId dto, total = 0, status = PENDING\<rparr>)\<rparr> \<and>
       s' = s\<lparr>order_seq := order_seq s + 1,
            db := (db s)\<lparr>order_table := (order_table (db s))(order_seq s \<mapsto>
                      \<lparr>userId = dto_userId dto, total = loop_total l, status = PENDING\<rparr>),
                    orderItem_table := orderItem_table (db s) @ orderItems l,
                    product_table := product_table (db s) ++ updatedProducts l\<rparr>\<rparr> \<and>
       r = (order_seq s, \<lparr>userId = dto_userId dto, total = loop_total l, status = PENDING\<rparr>,
            items_of (db s') (order_seq s)))"
proof (cases "create_try dto (startTransaction fs s)")
  case (Pair q r')
  show ?thesis
  proof (cases r')
    case (Inl e)
    from create_rolled_back [OF Pair [unfolded Inl]] assms show ?thesis
      by simp
  next
    case (Inr oid)
    from create_committed [OF Pair [unfolded Inr]] assms show ?thesis
      apply (clarsimp simp: repository_findOne_def findOne_def split: option.splits)
      subgoal for l q2 q3
        apply (rule exI [of _ l], rule exI [of _ q2])
        apply auto
        done
      done
  qed
qed

text \<open>What \<open>create\<close> leaves committed: the tables as they were, or the whole order.\<close>

lemma create_outcome:
  obtains (rolled_back) "db (fst (create fs dto s)) = db s"
      and "order_seq s \<le> order_seq (fst (create fs dto s))"
  | (committed) l q2 q3 where
      "create_loop (order_seq s) (dto_items dto) empty_locals q2 = (q3, Inr l)"
      and "view q2 = (db s)\<lparr>order_table := (order_table (db s))(order_seq s \<mapsto>
            \<lparr>userId = dto_userId dto, total = 0, status = PENDING\<rparr>)\<rparr>"
      and "fst (create fs dto s) = s\<lparr>order_seq := order_seq s + 1,
            db := (db s)\<lparr>order_table := (order_table (db s))(order_seq s \<mapsto>
                      \<lparr>userId = dto_userId dto, total = loop_total l, status = PENDING\<rparr>),
                    orderItem_table := orderItem_table (db s) @ orderItems l,
                    product_table := product_table (db s) ++ updatedProducts l\<rparr>\<rparr>"
proof (cases "create_try dto (startTransaction fs s)")
  case (Pair q r)
  show ?thesis
  proof (cases r)
    case (Inl e)
    from create_rolled_back [OF Pair [unfolded Inl]] show ?thesis
      by (intro rolled_back) simp_all
  next
    case (Inr oid)
    from create_committed [OF Pair [unfolded Inr]] obtain l q2 q3 where
      "create_loop (order_seq s) (dto_items dto) empty_locals q2 = (q3, Inr l)"
      "view q2 = (db s)\<lparr>order_table := (order_table (db s))(order_seq s \<mapsto>
            \<lparr>userId = dto_userId dto, total = 0, status = PENDING\<rparr>)\<rparr>"
      "fst (create fs dto s) = s\<lparr>order_seq := order_seq s + 1,
            db := (db s)\<lparr>order_table := (order_table (db s))(order_seq s \<mapsto>
                      \<lparr>userId = dto_userId dto, total = loop_total l, status = PENDING\<rparr>),
                    orderItem_table := orderItem_table (db s) @ orderItems l,
                    product_table := product_table (db s) ++ updatedProducts l\<rparr>\<rparr>"
      by auto
    then show ?thesis by (rule committed)
  qed
qed

lemma items_of_fresh:
  assumes "ids_below_seq s" and "list_all (\<lambda>i. orderId i = order_seq s) new"
  shows "filter (\<lambda>i. orderId i = order_seq s) (orderItem_table (db s) @ new) = new"
proof -
  have "filter (\<lambda>i. orderId i = order_seq s) (orderItem_table (db s)) = []"
    using assms(1) by (auto simp: ids_below_seq_def list_all_iff filter_empty_conv)
  moreover have "filter (\<lambda>i. orderId i = order_seq s) new = new"
    using assms(2) by (auto simp: list_all_iff)
  ultimately show ?thesis by simp
qed

lemma create_loop_orderId:
  assumes "create_loop oid ds l q = (q', Inr l')" and "list_all (\<lambda>i. orderId i = oid) (orderItems l)"
  shows "list_all (\<lambda>i. orderId i = oid) (orderItems l')"
  using assms by (rule create_loop_invariant) simp

lemma create_loop_prices:
  assumes "create_loop oid ds l q = (q', Inr l')"
    and "list_all (priced (view q)) (orderItems l) \<and>
         (\<forall>pid c. updatedProducts l pid = Some c \<longrightarrow>
            (\<exists>p. product_table (view q) pid = Some p \<and> price c = price p))"
  shows "list_all (priced (view q)) (orderItems l') \<and>
         (\<forall>pid c. updatedProducts l' pid = Some c \<longrightarrow>
            (\<exists>p. product_table (view q) pid = Some p \<and> price c = price p))"
  using assms
proof (rule create_loop_invariant)
  fix d :: OrderItemDto and p :: Product and l :: locals
  assume inv: "list_all (priced (view q)) (orderItems l) \<and>
         (\<forall>pid c. updatedProducts l pid = Some c \<longrightarrow>
            (\<exists>p. product_table (view q) pid = Some p \<and> price c = price p))"
    and tx: "tx_products l (view q) (dto_productId d) = Some p"
  from inv tx have "\<exists>p0. product_table (view q) (dto_productId d) = Some p0 \<and> price p = price p0"
    by (auto simp: tx_products_def map_add_def split: option.splits)
  with inv show "list_all (priced (view q)) (orderItems (add_item oid d p l)) \<and>
         (\<forall>pid c. updatedProducts (add_item oid d p l) pid = Some c \<longrightarrow>
            (\<exists>p. product_table (view q) pid = Some p \<and> price c = price p))"
    by (auto simp: priced_def)
qed


lemma empty_locals_simps [simp]:
  "orderItems empty_locals = []" "updatedProducts empty_locals = Map.empty"
  "loop_total empty_locals = 0"
  by (simp_all add: empty_locals_def)

lemma tx_products_empty [simp]: "tx_products empty_locals v = product_table v"
  by (simp add: tx_products_def)

section \<open>Running the service on concrete states\<close>

lemmas service_defs =
  create_def create_run_def repository_findOne_def create_try_def startTransaction_def rollbackTransaction_def release_def
  usersService_findOne_def manager_call_def pending_fault_def advance_def manager_defs
  get_product_def reserve_def add_item_def empty_locals_def findOne_def items_of_def
  cancel_def cancel_try_def logger_error_def updateStatus_def repository_save_Order_def

lemmas shop_defs = shop_def widget_def request_def line_def sold_def sold_twice_def

section \<open>Order creation is all or nothing, up to the commit\<close>

text \<open>
  The request below is accepted and committed, and the read-back that follows the commit
  faults (the seventh call): \<open>create\<close> throws, and the order, its item and the stock
  decrement stay committed.
\<close>

theorem create_readback_counterexample:
  "order_table (db shop) 1 = None \<and>
   snd (create [None, None, None, None, None, None, Some ''connection lost'']
          (request 1 [line 10 2]) shop) = Inl (Error ''connection lost'') \<and>
   order_table (db (fst (create [None, None, None, None, None, None, Some ''connection lost'']
          (request 1 [line 10 2]) shop))) 1 =
     Some \<lparr>userId = 1, total = 1998 / 100, status = PENDING\<rparr> \<and>
   orderItem_table (db (fst (create [None, None, None, None, None, None, Some ''connection lost'']
          (request 1 [line 10 2]) shop))) =
     [\<lparr>orderId = 1, productId = 10, quantity = 2, item_price = 999 / 100\<rparr>] \<and>
   product_table (db (fst (create [None, None, None, None, None, None, Some ''connection lost'']
          (request 1 [line 10 2]) shop))) 10 = Some (widget\<lparr>stock := 3\<rparr>)"
  by (simp add: service_defs shop_defs)

text \<open>
  C1, amended. Order creation is all or nothing up to the commit, whatever the request
  and the schedule of faults. When the body of the \<open>try\<close> block throws (user not found,
  product not found, product not available, not enough stock, or a fault of a call
  inside the transaction, the commit included), \<open>create\<close> throws that exception, and
  the committed tables are the ones from before the call: no order row, no item row, no
  change of a product. When the body commits, the tables hold the order header in
  \<open>PENDING\<close> under the id taken from the sequence, one item row per requested line, and
  every product row with its stock decremented by all the lines that name it, all
  together; \<open>create\<close> then returns the order, or, when the read-back faults, throws
  that fault with the order committed. So an \<open>HttpException\<close> out of \<open>create\<close> always
  means that nothing was committed. In every case the runner is released with no write
  in its view that is not committed: the \<open>catch\<close> block has rolled back.
\<close>

theorem create_all_or_nothing:
  assumes "create_run fs dto s = (q', r)"
  shows "create fs dto s = (sys q', r) \<and> view q' = db (sys q') \<and>
    (case create_try dto (startTransaction fs s) of
       (q, Inl e) \<Rightarrow> r = Inl e \<and> db (sys q') = db s
     | (q, Inr oid) \<Rightarrow>
         oid = order_seq s \<and>
         (\<exists>ord new. status ord = PENDING \<and> userId ord = dto_userId dto \<and>
            order_table (db (sys q')) = (order_table (db s))(oid \<mapsto> ord) \<and>
            orderItem_table (db (sys q')) = orderItem_table (db s) @ new \<and>
            lines_of new = dto_lines (dto_items dto) \<and> list_all (\<lambda>i. orderId i = oid) new \<and>
            (\<forall>pid. product_table (db (sys q')) pid =
               map_option (reserved pid (dto_items dto)) (product_table (db s) pid)) \<and>
            (r = Inr (oid, ord, items_of (db (sys q')) oid) \<or> (\<exists>m. r = Inl (Error m))))) \<and>
    (\<forall>e. r = Inl e \<and> isHttpException e \<longrightarrow> db (sys q') = db s)"
proof (cases "create_try dto (startTransaction fs s)")
  case (Pair q r0)
  show ?thesis
  proof (cases r0)
    case (Inl e)
    from assms Pair Inl have q': "q' = rollbackTransaction q" and r: "r = Inl e"
      by (auto simp: create_run_def)
    from create_rolled_back [OF Pair [unfolded Inl]] q' r Pair Inl show ?thesis
      by (simp add: rollbackTransaction_def)
  next
    case (Inr oid)
    from assms Pair Inr have q': "q' = q" and r: "r = repository_findOne oid q"
      by (auto simp: create_run_def)
    from create_committed [OF Pair [unfolded Inr]] obtain l q2 q3 where
      oid: "oid = order_seq s" and c: "create fs dto s = (sys q, repository_findOne oid q)"
      and v: "view q = db (sys q)"
      and loop: "create_loop (order_seq s) (dto_items dto) empty_locals q2 = (q3, Inr l)"
      and v2: "view q2 = (db s)\<lparr>order_table := (order_table (db s))(order_seq s \<mapsto>
            \<lparr>userId = dto_userId dto, total = 0, status = PENDING\<rparr>)\<rparr>"
      and sq: "sys q = s\<lparr>order_seq := order_seq s + 1,
            db := (db s)\<lparr>order_table := (order_table (db s))(order_seq s \<mapsto>
                      \<lparr>userId = dto_userId dto, total = loop_total l, status = PENDING\<rparr>),
                    orderItem_table := orderItem_table (db s) @ orderItems l,
                    product_table := product_table (db s) ++ updatedProducts l\<rparr>\<rparr>"
      by blast
    let ?ord = "\<lparr>userId = dto_userId dto, total = loop_total l, status = PENDING\<rparr>"
    from create_loop_lines [OF loop] have lines: "lines_of (orderItems l) = dto_lines (dto_items dto)"
      by simp
    from create_loop_orderId [OF loop] have ids: "list_all (\<lambda>i. orderId i = oid) (orderItems l)"
      by (simp add: oid)
    have prods: "\<forall>pid. product_table (db (sys q)) pid =
        map_option (reserved pid (dto_items dto)) (product_table (db s) pid)"
      using create_loop_tx_products [OF loop] v2 by (simp add: sq tx_products_def)
    have tab: "order_table (db (sys q)) = (order_table (db s))(oid \<mapsto> ?ord)"
      "orderItem_table (db (sys q)) = orderItem_table (db s) @ orderItems l"
      by (simp_all add: sq oid)
    have res: "r = Inr (oid, ?ord, items_of (db (sys q)) oid) \<or> (\<exists>m. r = Inl (Error m))"
      using r tab(1) by (auto simp: repository_findOne_def findOne_def split: option.splits)
    have "\<exists>ord new. status ord = PENDING \<and> userId ord = dto_userId dto \<and>
            order_table (db (sys q)) = (order_table (db s))(oid \<mapsto> ord) \<and>
            orderItem_table (db (sys q)) = orderItem_table (db s) @ new \<and>
            lines_of new = dto_lines (dto_items dto) \<and> list_all (\<lambda>i. orderId i = oid) new \<and>
            (\<forall>pid. product_table (db (sys q)) pid =
               map_option (reserved pid (dto_items dto)) (product_table (db s) pid)) \<and>
            (r = Inr (oid, ord, items_of (db (sys q)) oid) \<or> (\<exists>m. r = Inl (Error m)))"
      using tab lines ids prods res
      by (intro exI [of _ ?ord] exI [of _ "orderItems l"]) simp
    moreover have "\<forall>e. r = Inl e \<and> isHttpException e \<longrightarrow> db (sys q) = db s"
      using res by auto
    ultimately show ?thesis
      using Pair Inr q' r c v oid by simp
  qed
qed

theorem create_all_or_nothing_witness:
  "snd (create [] (request 1 [line 10 2, line 10 4]) shop) =
      Inl (BadRequestException (Not_enough_stock ''widget'')) \<and>
   db (fst (create [] (request 1 [line 10 2, line 10 4]) shop)) = db shop \<and>
   snd (create [None, None, None, None, None, Some ''connection lost''] (request 1 [line 10 2]) shop) =
      Inl (Error ''connection lost'') \<and>
   db (fst (create [None, None, None, None, None, Some ''connection lost''] (request 1 [line 10 2]) shop)) =
      db shop \<and>
   view (fst (create_run [None, None, None, None, None, Some ''connection lost'']
      (request 1 [line 10 2]) shop)) = db shop \<and>
   snd (create [] (request 1 [line 10 2, line 10 1]) shop) =
      Inr (1, \<lparr>userId = 1, total = 2997 / 100, status = PENDING\<rparr>,
           [\<lparr>orderId = 1, productId = 10, quantity = 2, item_price = 999 / 100\<rparr>,
            \<lparr>orderId = 1, productId = 10, quantity = 1, item_price = 999 / 100\<rparr>]) \<and>
   product_table (db (fst (create [] (request 1 [line 10 2, line 10 1]) shop))) 10 =
      Some (widget\<lparr>stock := 2\<rparr>)"
proof -
  let ?lost = "[None, None, None, None, None, Some ''connection lost'']"
  let ?short = "create_run [] (request 1 [line 10 2, line 10 4]) shop"
  let ?cut = "create_run ?lost (request 1 [line 10 2]) shop"
  let ?good = "create_run [] (request 1 [line 10 2, line 10 1]) shop"
  have short: "snd ?short = Inl (BadRequestException (Not_enough_stock ''widget''))"
    by (simp add: service_defs shop_defs)
  have cut: "snd ?cut = Inl (Error ''connection lost'')"
    by (simp add: service_defs shop_defs)
  have good: "snd ?good = Inr (1, \<lparr>userId = 1, total = 2997 / 100, status = PENDING\<rparr>,
           [\<lparr>orderId = 1, productId = 10, quantity = 2, item_price = 999 / 100\<rparr>,
            \<lparr>orderId = 1, productId = 10, quantity = 1, item_price = 999 / 100\<rparr>])"
    by (simp add: service_defs shop_defs)
  have good_try: "snd (create_try (request 1 [line 10 2, line 10 1]) (startTransaction [] shop)) = Inr 1"
    by (simp add: service_defs shop_defs)
  note t1 = create_all_or_nothing [of "[]" "request 1 [line 10 2, line 10 4]" shop "fst ?short" "snd ?short",
      OF prod.collapse [symmetric]]
  note t2 = create_all_or_nothing [of ?lost "request 1 [line 10 2]" shop "fst ?cut" "snd ?cut",
      OF prod.collapse [symmetric]]
  note t3 = create_all_or_nothing [of "[]" "request 1 [line 10 2, line 10 1]" shop "fst ?good" "snd ?good",
      OF prod.collapse [symmetric]]
  have c1: "create [] (request 1 [line 10 2, line 10 4]) shop = (sys (fst ?short), snd ?short)"
    using t1 by (rule conjunct1)
  have d1: "db (sys (fst ?short)) = db shop"
    using t1 [THEN conjunct2, THEN conjunct2, THEN conjunct2] short by simp
  have c2: "create ?lost (request 1 [line 10 2]) shop = (sys (fst ?cut), snd ?cut)"
    using t2 by (rule conjunct1)
  have v2: "view (fst ?cut) = db (sys (fst ?cut))"
    using t2 [THEN conjunct2] by (rule conjunct1)
  have cut_try: "snd (create_try (request 1 [line 10 2]) (startTransaction ?lost shop)) =
      Inl (Error ''connection lost'')"
    by (simp add: service_defs shop_defs)
  have d2: "db (sys (fst ?cut)) = db shop"
    using t2 [THEN conjunct2, THEN conjunct2, THEN conjunct1] cut_try
    by (cases "create_try (request 1 [line 10 2]) (startTransaction ?lost shop)") auto
  have c3: "create [] (request 1 [line 10 2, line 10 1]) shop = (sys (fst ?good), snd ?good)"
    using t3 by (rule conjunct1)
  have p3: "product_table (db (sys (fst ?good))) 10 = Some (widget\<lparr>stock := 2\<rparr>)"
    using t3 [THEN conjunct2, THEN conjunct2, THEN conjunct1] good_try
    by (cases "create_try (request 1 [line 10 2, line 10 1]) (startTransaction [] shop)")
      (auto simp: shop_defs reserved_def requested_def)
  show ?thesis
    using short cut good c1 d1 c2 v2 d2 c3 p3 by simp
qed

lemma no_faults_tl [simp]: "no_faults fs \<Longrightarrow> no_faults (tl fs)"
  by (cases fs) (auto simp: no_faults_def)

lemma no_faults_advance [simp]: "no_faults (faults q) \<Longrightarrow> no_faults (faults (advance q))"
  by (simp add: advance_def)

lemma no_faults_pending [simp]: "no_faults (faults q) \<Longrightarrow> pending_fault q = None"
  by (simp add: no_faults_step)

lemma manager_call_no_faults:
  "no_faults (faults q) \<Longrightarrow> manager_call f q = (fst (f (advance q)), Inr (snd (f (advance q))))"
  by (simp add: manager_call_ok)

text \<open>Creation when nothing fails: what the transaction computes.\<close>

lemma get_product_no_faults:
  "no_faults (faults q) \<Longrightarrow> \<exists>q'. get_product pid l q = (q', Inr (tx_products l (view q) pid)) \<and>
      view q' = view q \<and> sys q' = sys q \<and> no_faults (faults q')"
  by (auto simp: get_product_def tx_products_def map_add_def manager_defs manager_call_no_faults
      split: option.splits)

section \<open>Prices of a created order\<close>

text \<open>
  For every order that \<open>create\<close> returns, on a store whose item rows belong to orders
  of ids already given out: the order is committed as returned, in \<open>PENDING\<close>, and
  every item carries the price of the product row it refers to, as that row was when
  the item was made (the engine never changes a price). The total is left out: the
  source adds JavaScript doubles, and the sums of this development are exact.
\<close>

lemma create_item_prices:
  assumes "create fs dto s = (s', Inr (oid, ord, its))" and "ids_below_seq s"
  shows "findOne oid s' = Inr (oid, ord, its) \<and> status ord = PENDING \<and>
      list_all (priced (db s)) its"
proof -
  from create_Inr [OF assms(1)] obtain l q2 q3 where
    loop: "create_loop (order_seq s) (dto_items dto) empty_locals q2 = (q3, Inr l)"
    and v2: "view q2 = (db s)\<lparr>order_table := (order_table (db s))(order_seq s \<mapsto>
            \<lparr>userId = dto_userId dto, total = 0, status = PENDING\<rparr>)\<rparr>"
    and s': "s' = s\<lparr>order_seq := order_seq s + 1,
            db := (db s)\<lparr>order_table := (order_table (db s))(order_seq s \<mapsto>
                      \<lparr>userId = dto_userId dto, total = loop_total l, status = PENDING\<rparr>),
                    orderItem_table := orderItem_table (db s) @ orderItems l,
                    product_table := product_table (db s) ++ updatedProducts l\<rparr>\<rparr>"
    and v: "(oid, ord, its) = (order_seq s, \<lparr>userId = dto_userId dto, total = loop_total l, status = PENDING\<rparr>,
            items_of (db s') (order_seq s))"
    by blast
  from create_loop_orderId [OF loop] have ids: "list_all (\<lambda>i. orderId i = order_seq s) (orderItems l)"
    by simp
  have its: "its = orderItems l"
    using v s' items_of_fresh [of s "orderItems l"] assms(2) ids by (simp add: items_of_def)
  from create_loop_prices [OF loop] have "list_all (priced (view q2)) (orderItems l)"
    by simp
  then have pr: "list_all (priced (db s)) (orderItems l)"
    by (simp add: list_all_iff priced_def v2)
  show ?thesis
    using v s' its pr by (auto simp: findOne_def)
qed

section \<open>The loop of cancel\<close>

lemma cancel_loop_frame:
  "cancel_loop its q = (q', r) \<Longrightarrow>
     sys q' = sys q \<and> order_table (view q') = order_table (view q) \<and>
     orderItem_table (view q') = orderItem_table (view q) \<and>
     user_table (view q') = user_table (view q)"
proof (induction its arbitrary: q)
  case Nil
  then show ?case by simp
next
  case (Cons i its)
  then show ?case
    by (auto simp: manager_defs split: prod.splits sum.splits option.splits)
qed

lemma cancel_loop_Inr:
  "cancel_loop its q = (q', Inr u) \<Longrightarrow>
     product_table (view q') = fold restock its (product_table (view q)) \<and>
     locked q' = locked q @ map (\<lambda>i. ProductRow (productId i)) its"
proof (induction its arbitrary: q)
  case Nil
  then show ?case by simp
next
  case (Cons i its)
  then show ?case
    by (auto simp: manager_defs restock_def split: prod.splits sum.splits option.splits)
qed

lemma cancel_loop_no_faults:
  "no_faults (faults q) \<Longrightarrow> \<exists>q'. cancel_loop its q = (q', Inr ()) \<and> no_faults (faults q')"
proof (induction its arbitrary: q)
  case Nil
  then show ?case by simp
next
  case (Cons i its)
  show ?case
  proof (cases "product_table (view q) (productId i)")
    case None
    with Cons.prems Cons.IH [of "advance q\<lparr>locked := locked q @ [ProductRow (productId i)]\<rparr>"]
    show ?thesis
      by (simp add: manager_defs manager_call_no_faults)
  next
    case (Some p)
    with Cons.prems
      Cons.IH [of "advance (advance q\<lparr>locked := locked q @ [ProductRow (productId i)]\<rparr>)
        \<lparr>view := (view q)\<lparr>product_table := (product_table (view q))(productId i \<mapsto>
            p\<lparr>stock := stock p + quantity i, isAvailable := True\<rparr>)\<rparr>\<rparr>"]
    show ?thesis
      by (simp add: manager_defs manager_call_no_faults)
  qed
qed

lemma restored_Cons:
  "restored pid (i # its) = (if productId i = pid then quantity i else 0) + restored pid its"
  by (simp add: restored_def)

lemma restored_Nil [simp]: "restored pid [] = 0"
  by (simp add: restored_def)

lemma restock_apply:
  "restock i m pid =
     (if productId i = pid
      then map_option (\<lambda>p. p\<lparr>stock := stock p + quantity i, isAvailable := True\<rparr>) (m pid)
      else m pid)"
  by (auto simp: restock_def split: option.splits)

lemma fold_restock:
  "fold restock its m pid = map_option (restocked pid its) (m pid)"
proof (induction its arbitrary: m)
  case Nil
  show ?case by (cases "m pid") (simp_all add: restocked_def)
next
  case (Cons i its)
  have "fold restock (i # its) m pid = map_option (restocked pid its) (restock i m pid)"
    by (simp add: Cons.IH)
  also have "\<dots> = map_option (restocked pid (i # its)) (m pid)"
    by (cases "m pid") (auto simp: restock_apply restocked_def restored_Cons)
  finally show ?case .
qed

section \<open>The transaction of cancel\<close>

lemma cancel_try_Inl:
  assumes "cancel_try oid q = (q', Inl e)"
  shows "sys q' = sys q"
  using assms
  by (auto simp: cancel_try_def manager_defs
      split: prod.splits sum.splits option.splits if_splits dest!: cancel_loop_frame)

lemma cancel_try_Inr:
  assumes "cancel_try oid q = (q', Inr r)"
  shows "\<exists>ord. order_table (view q) oid = Some ord \<and> status ord = PENDING \<and>
     r = (oid, ord\<lparr>status := CANCELLED\<rparr>, items_of (view q) oid) \<and>
     sys q' = (sys q)\<lparr>db := (view q)\<lparr>
        product_table := fold restock (items_of (view q) oid) (product_table (view q)),
        order_table := (order_table (view q))(oid \<mapsto> ord\<lparr>status := CANCELLED\<rparr>)\<rparr>\<rparr> \<and>
     locked q' = locked q @ OrderRow oid # map (\<lambda>i. ProductRow (productId i)) (items_of (view q) oid)"
  using assms
  apply (clarsimp simp: cancel_try_def manager_defs
      split: prod.splits sum.splits option.splits if_splits)
  apply (frule cancel_loop_frame)
  apply (frule cancel_loop_Inr)
  apply (auto simp: advance_def)
  done

lemma cancel_Inl:
  assumes "cancel fs oid s = (s', Inl e)"
  shows "\<exists>e0. s' = s\<lparr>logger := logger s @ [e0]\<rparr> \<and>
     e = (if isHttpException e0 then e0 else InternalServerErrorException Failed_to_cancel_order)"
proof (cases "cancel_try oid (startTransaction fs s)")
  case (Pair q r)
  with assms obtain e0 where r: "r = Inl e0"
    by (cases r) (auto simp: cancel_def)
  from cancel_try_Inl [OF Pair [unfolded r]] have "sys q = s"
    by (simp add: startTransaction_def)
  with assms Pair r show ?thesis
    by (auto simp: cancel_def release_def logger_error_def rollbackTransaction_def)
qed

lemma cancel_Inr:
  assumes "cancel fs oid s = (s', Inr r)"
  shows "\<exists>ord. order_table (db s) oid = Some ord \<and> status ord = PENDING \<and>
     r = (oid, ord\<lparr>status := CANCELLED\<rparr>, items_of (db s) oid) \<and>
     s' = s\<lparr>db := (db s)\<lparr>
        product_table := fold restock (items_of (db s) oid) (product_table (db s)),
        order_table := (order_table (db s))(oid \<mapsto> ord\<lparr>status := CANCELLED\<rparr>)\<rparr>\<rparr>"
proof (cases "cancel_try oid (startTransaction fs s)")
  case (Pair q r')
  with assms have r': "r' = Inr r"
    by (cases r') (auto simp: cancel_def)
  from cancel_try_Inr [OF Pair [unfolded r']] assms Pair r' show ?thesis
    by (auto simp: cancel_def release_def startTransaction_def)
qed

lemma cancel_try_no_faults:
  assumes "no_faults (faults q)" and "order_table (view q) oid = Some ord"
  shows "\<exists>q'. cancel_try oid q =
     (q', if status ord = PENDING then Inr (oid, ord\<lparr>status := CANCELLED\<rparr>, items_of (view q) oid)
          else Inl (BadRequestException Only_pending_can_be_cancelled))"
proof (cases "status ord = PENDING")
  case False
  with assms show ?thesis
    by (simp add: cancel_try_def manager_defs manager_call_no_faults)
next
  case True
  let ?q2 = "advance (advance q\<lparr>locked := locked q @ [OrderRow oid]\<rparr>)"
  have "no_faults (faults ?q2)"
    using assms(1) by (simp add: advance_def)
  from cancel_loop_no_faults [OF this, of "items_of (view q) oid"]
  obtain q3 where q3: "cancel_loop (items_of (view q) oid) ?q2 = (q3, Inr ())" "no_faults (faults q3)"
    by blast
  with assms True show ?thesis
    by (simp add: cancel_try_def manager_defs manager_call_no_faults)
qed

lemma cancel_pending:
  assumes "no_faults fs" and "order_table (db s) oid = Some ord" and "status ord = PENDING"
  shows "cancel fs oid s =
     (s\<lparr>db := (db s)\<lparr>
        product_table := fold restock (items_of (db s) oid) (product_table (db s)),
        order_table := (order_table (db s))(oid \<mapsto> ord\<lparr>status := CANCELLED\<rparr>)\<rparr>\<rparr>,
      Inr (oid, ord\<lparr>status := CANCELLED\<rparr>, items_of (db s) oid))"
proof -
  from cancel_try_no_faults [of "startTransaction fs s" oid ord] assms
  obtain q' where "cancel_try oid (startTransaction fs s) =
      (q', Inr (oid, ord\<lparr>status := CANCELLED\<rparr>, items_of (db s) oid))"
    by (auto simp: startTransaction_def)
  then have c: "cancel fs oid s = (release q', Inr (oid, ord\<lparr>status := CANCELLED\<rparr>, items_of (db s) oid))"
    by (simp add: cancel_def)
  from cancel_Inr [OF this] assms(2) show ?thesis
    using c by simp
qed

lemma cancel_not_pending:
  assumes "no_faults fs" and "order_table (db s) oid = Some ord" and "status ord \<noteq> PENDING"
  shows "cancel fs oid s =
     (s\<lparr>logger := logger s @ [BadRequestException Only_pending_can_be_cancelled]\<rparr>,
      Inl (BadRequestException Only_pending_can_be_cancelled))"
proof -
  from cancel_try_no_faults [of "startTransaction fs s" oid ord] assms
  obtain q' where q': "cancel_try oid (startTransaction fs s) =
      (q', Inl (BadRequestException Only_pending_can_be_cancelled))"
    by (auto simp: startTransaction_def)
  from cancel_try_Inl [OF this] have "sys q' = s"
    by (simp add: startTransaction_def)
  with q' show ?thesis
    by (simp add: cancel_def release_def logger_error_def rollbackTransaction_def)
qed

section \<open>Cancelling restocks, once\<close>

text \<open>
  C5. With no fault, cancelling an order in \<open>PENDING\<close> returns it in \<open>CANCELLED\<close>,
  stores it so, and gives every item's quantity back to the stock of the product the
  item names, item by item (\<open>restock\<close>), leaving the item rows as they are. With no
  fault, cancelling an order whose status is not \<open>PENDING\<close> throws the
  \<open>BadRequestException\<close> and changes no table. Hence after a cancellation that
  returned, a second one of the same order throws that exception when no fault
  interferes, and under any schedule of faults it throws and changes no table: nothing is
  restocked twice.
\<close>

theorem cancel_restocks_once:
  "(no_faults fs \<and> order_table (db s) oid = Some ord \<and> status ord = PENDING \<longrightarrow>
      (\<exists>s'. cancel fs oid s = (s', Inr (oid, ord\<lparr>status := CANCELLED\<rparr>, items_of (db s) oid)) \<and>
         order_table (db s') = (order_table (db s))(oid \<mapsto> ord\<lparr>status := CANCELLED\<rparr>) \<and>
         product_table (db s') = fold restock (items_of (db s) oid) (product_table (db s)) \<and>
         orderItem_table (db s') = orderItem_table (db s))) \<and>
   (no_faults fs \<and> order_table (db s) oid = Some ord \<and> status ord \<noteq> PENDING \<longrightarrow>
      (\<exists>s'. cancel fs oid s = (s', Inl (BadRequestException Only_pending_can_be_cancelled)) \<and>
         db s' = db s)) \<and>
   (cancel fs oid s = (s1, Inr r) \<and> no_faults fs' \<longrightarrow>
      (\<exists>s2. cancel fs' oid s1 = (s2, Inl (BadRequestException Only_pending_can_be_cancelled)) \<and>
         db s2 = db s1)) \<and>
   (cancel fs oid s = (s1, Inr r) \<longrightarrow>
      (\<exists>e. snd (cancel fs' oid s1) = Inl e) \<and> db (fst (cancel fs' oid s1)) = db s1)"
proof (intro conjI; rule impI)
  assume "no_faults fs \<and> order_table (db s) oid = Some ord \<and> status ord = PENDING"
  then show "\<exists>s'. cancel fs oid s = (s', Inr (oid, ord\<lparr>status := CANCELLED\<rparr>, items_of (db s) oid)) \<and>
         order_table (db s') = (order_table (db s))(oid \<mapsto> ord\<lparr>status := CANCELLED\<rparr>) \<and>
         product_table (db s') = fold restock (items_of (db s) oid) (product_table (db s)) \<and>
         orderItem_table (db s') = orderItem_table (db s)"
    by (simp add: cancel_pending)
next
  assume "no_faults fs \<and> order_table (db s) oid = Some ord \<and> status ord \<noteq> PENDING"
  then show "\<exists>s'. cancel fs oid s = (s', Inl (BadRequestException Only_pending_can_be_cancelled)) \<and>
         db s' = db s"
    by (simp add: cancel_not_pending)
next
  assume a: "cancel fs oid s = (s1, Inr r) \<and> no_faults fs'"
  then obtain ord where "order_table (db s1) oid = Some (ord\<lparr>status := CANCELLED\<rparr>)"
    by (auto dest!: cancel_Inr)
  with a show "\<exists>s2. cancel fs' oid s1 = (s2, Inl (BadRequestException Only_pending_can_be_cancelled)) \<and>
         db s2 = db s1"
    by (simp add: cancel_not_pending [of fs' s1 oid "ord\<lparr>status := CANCELLED\<rparr>"])
next
  assume "cancel fs oid s = (s1, Inr r)"
  then obtain ord where c: "order_table (db s1) oid = Some (ord\<lparr>status := CANCELLED\<rparr>)"
    by (auto dest!: cancel_Inr)
  obtain s2 r2 where s2: "cancel fs' oid s1 = (s2, r2)"
    by (cases "cancel fs' oid s1")
  show "(\<exists>e. snd (cancel fs' oid s1) = Inl e) \<and> db (fst (cancel fs' oid s1)) = db s1"
  proof (cases r2)
    case (Inl e)
    with s2 show ?thesis by (auto dest!: cancel_Inl)
  next
    case (Inr v)
    with s2 c show ?thesis by (auto dest!: cancel_Inr)
  qed
qed


theorem cancel_restocks_once_witness:
  "fst (create [] (request 1 [line 10 2]) shop) = sold \<and>
   no_faults [] \<and>
   order_table (db sold) 1 = Some \<lparr>userId = 1, total = 1998 / 100, status = PENDING\<rparr> \<and>
   snd (cancel [] 1 sold) =
     Inr (1, \<lparr>userId = 1, total = 1998 / 100, status = CANCELLED\<rparr>,
          [\<lparr>orderId = 1, productId = 10, quantity = 2, item_price = 999 / 100\<rparr>]) \<and>
   product_table (db (fst (cancel [] 1 sold))) 10 = Some widget \<and>
   order_table (db (fst (cancel [] 1 sold))) 1 =
     Some \<lparr>userId = 1, total = 1998 / 100, status = CANCELLED\<rparr> \<and>
   snd (cancel [] 1 (fst (cancel [] 1 sold))) =
     Inl (BadRequestException Only_pending_can_be_cancelled) \<and>
   db (fst (cancel [] 1 (fst (cancel [] 1 sold)))) = db (fst (cancel [] 1 sold))"
proof -
  let ?ord = "\<lparr>userId = 1, total = 1998 / 100 :: rat, status = PENDING\<rparr>"
  have made: "fst (create [] (request 1 [line 10 2]) shop) = sold"
    by (simp add: service_defs shop_defs)
  have hyps: "no_faults [] \<and> order_table (db sold) 1 = Some ?ord \<and> status ?ord = PENDING"
    by (simp add: no_faults_def sold_def)
  have its: "items_of (db sold) 1 =
      [\<lparr>orderId = 1, productId = 10, quantity = 2, item_price = 999 / 100\<rparr>]"
    by (simp add: items_of_def sold_def)
  from cancel_restocks_once [of "[]" sold 1 ?ord, THEN conjunct1, THEN mp, OF hyps] obtain s' where
    s': "cancel [] 1 sold = (s', Inr (1, ?ord\<lparr>status := CANCELLED\<rparr>, items_of (db sold) 1))"
    "order_table (db s') = (order_table (db sold))(1 \<mapsto> ?ord\<lparr>status := CANCELLED\<rparr>)"
    "product_table (db s') = fold restock (items_of (db sold) 1) (product_table (db sold))"
    by (elim exE conjE)
  have "product_table (db s') 10 = Some widget"
    by (simp add: s'(3) its restock_def) (simp add: sold_def widget_def)
  moreover
  have "cancel [] 1 sold = (s', Inr (1, ?ord\<lparr>status := CANCELLED\<rparr>, items_of (db sold) 1)) \<and> no_faults []"
    using s'(1) hyps by simp
  from cancel_restocks_once [of "[]" sold 1 ?ord s' "(1, ?ord\<lparr>status := CANCELLED\<rparr>, items_of (db sold) 1)" "[]",
      THEN conjunct2, THEN conjunct2, THEN conjunct1, THEN mp, OF this]
  have "snd (cancel [] 1 s') = Inl (BadRequestException Only_pending_can_be_cancelled) \<and>
      db (fst (cancel [] 1 s')) = db s'"
    by (elim exE conjE) simp
  ultimately show ?thesis
    using made hyps s'(1,2) its by simp
qed

section \<open>Cancelling an order whose items name one product several times\<close>

text \<open>
  C10. With no fault, cancelling an order in \<open>PENDING\<close> leaves every product with its
  stock raised by the sum of the quantities of all the order's item rows that name it
  (and available when some row names it): the loop has no cache, it reads the product
  under lock once per item row, so a later row of the same product sees the stock the
  earlier row has saved.
\<close>

theorem cancel_restores_sum:
  "no_faults fs \<and> order_table (db s) oid = Some ord \<and> status ord = PENDING \<longrightarrow>
     (\<forall>pid. product_table (db (fst (cancel fs oid s))) pid =
        map_option (restocked pid (items_of (db s) oid)) (product_table (db s) pid)) \<and>
     locked (fst (cancel_try oid (startTransaction fs s))) =
        OrderRow oid # map (\<lambda>i. ProductRow (productId i)) (items_of (db s) oid)"
proof
  assume a: "no_faults fs \<and> order_table (db s) oid = Some ord \<and> status ord = PENDING"
  then have nf: "no_faults fs" and ord: "order_table (db s) oid = Some ord" and pend: "status ord = PENDING"
    by simp_all
  have "product_table (db (fst (cancel fs oid s))) =
      fold restock (items_of (db s) oid) (product_table (db s))"
    by (simp add: cancel_pending [OF nf ord pend])
  then have sum: "\<forall>pid. product_table (db (fst (cancel fs oid s))) pid =
        map_option (restocked pid (items_of (db s) oid)) (product_table (db s) pid)"
    by (simp add: fold_restock)
  have "no_faults (faults (startTransaction fs s))"
    and "order_table (view (startTransaction fs s)) oid = Some ord"
    using nf ord by (simp_all add: startTransaction_def)
  from cancel_try_no_faults [OF this]
  obtain q' where q': "cancel_try oid (startTransaction fs s) =
      (q', Inr (oid, ord\<lparr>status := CANCELLED\<rparr>, items_of (view (startTransaction fs s)) oid))"
    using pend by auto
  from cancel_try_Inr [OF q']
  have "locked q' = locked (startTransaction fs s) @
      OrderRow oid # map (\<lambda>i. ProductRow (productId i)) (items_of (view (startTransaction fs s)) oid)"
    by (elim exE conjE)
  then have "locked q' = OrderRow oid # map (\<lambda>i. ProductRow (productId i)) (items_of (db s) oid)"
    by (simp add: startTransaction_def)
  with q' have "locked (fst (cancel_try oid (startTransaction fs s))) =
        OrderRow oid # map (\<lambda>i. ProductRow (productId i)) (items_of (db s) oid)"
    by simp
  with sum show "(\<forall>pid. product_table (db (fst (cancel fs oid s))) pid =
        map_option (restocked pid (items_of (db s) oid)) (product_table (db s) pid)) \<and>
     locked (fst (cancel_try oid (startTransaction fs s))) =
        OrderRow oid # map (\<lambda>i. ProductRow (productId i)) (items_of (db s) oid)"
    by simp
qed

theorem cancel_restores_sum_witness:
  "fst (create [] (request 1 [line 10 2, line 10 1]) shop) = sold_twice \<and>
   no_faults [] \<and>
   order_table (db sold_twice) 1 = Some \<lparr>userId = 1, total = 2997 / 100, status = PENDING\<rparr> \<and>
   restored 10 (items_of (db sold_twice) 1) = 3 \<and>
   product_table (db sold_twice) 10 = Some (widget\<lparr>stock := 2\<rparr>) \<and>
   product_table (db (fst (cancel [] 1 sold_twice))) 10 = Some (widget\<lparr>stock := 5\<rparr>) \<and>
   locked (fst (cancel_try 1 (startTransaction [] sold_twice))) =
     [OrderRow 1, ProductRow 10, ProductRow 10]"
proof -
  let ?ord = "\<lparr>userId = 1, total = 2997 / 100 :: rat, status = PENDING\<rparr>"
  have made: "fst (create [] (request 1 [line 10 2, line 10 1]) shop) = sold_twice"
    by (simp add: service_defs shop_defs)
  have hyps: "no_faults [] \<and> order_table (db sold_twice) 1 = Some ?ord \<and> status ?ord = PENDING"
    by (simp add: no_faults_def sold_twice_def)
  have its: "items_of (db sold_twice) 1 =
      [\<lparr>orderId = 1, productId = 10, quantity = 2, item_price = 999 / 100\<rparr>,
       \<lparr>orderId = 1, productId = 10, quantity = 1, item_price = 999 / 100\<rparr>]"
    by (simp add: items_of_def sold_twice_def)
  have three: "restored 10 (items_of (db sold_twice) 1) = 3"
    by (simp add: its restored_def)
  have before: "product_table (db sold_twice) 10 = Some (widget\<lparr>stock := 2\<rparr>)"
    by (simp add: sold_twice_def)
  note both = cancel_restores_sum [of "[]" sold_twice 1 ?ord, THEN mp, OF hyps]
  from both [THEN conjunct1, THEN spec, of 10]
  have after: "product_table (db (fst (cancel [] 1 sold_twice))) 10 = Some (widget\<lparr>stock := 5\<rparr>)"
    by (simp add: before restocked_def three) (simp add: its widget_def)
  from both [THEN conjunct2]
  have trace: "locked (fst (cancel_try 1 (startTransaction [] sold_twice))) =
     [OrderRow 1, ProductRow 10, ProductRow 10]"
    by (simp add: its)
  show ?thesis
    by (intro conjI made hyps [THEN conjunct1] hyps [THEN conjunct2, THEN conjunct1]
        three before after trace)
qed


section \<open>What the operations keep\<close>

lemma create_loop_stock_ok:
  assumes "create_loop oid ds l q = (q', Inr l')"
    and "\<forall>pid c. updatedProducts l pid = Some c \<longrightarrow> stock_ok c"
  shows "\<forall>pid c. updatedProducts l' pid = Some c \<longrightarrow> stock_ok c"
  using assms by (rule create_loop_invariant) (auto simp: stock_ok_def)

lemma create_loop_positive:
  assumes "create_loop oid ds l q = (q', Inr l')"
    and "list_all (\<lambda>i. 1 \<le> quantity i) (orderItems l)"
    and "list_all (\<lambda>d. 1 \<le> dto_quantity d) ds"
  shows "list_all (\<lambda>i. 1 \<le> quantity i) (orderItems l')"
  using assms(1,2)
proof (rule create_loop_invariant)
  fix d :: OrderItemDto and p :: Product and l :: locals
  assume "list_all (\<lambda>i. 1 \<le> quantity i) (orderItems l)" and "d \<in> set ds"
  with assms(3) show "list_all (\<lambda>i. 1 \<le> quantity i) (orderItems (add_item oid d p l))"
    by (simp add: list_all_iff)
qed

lemma create_keeps_I2:
  assumes "I2 (db s)"
  shows "I2 (db (fst (create fs dto s)))"
proof (cases rule: create_outcome [of fs dto s])
  case rolled_back
  with assms show ?thesis by simp
next
  case (committed l q2 q3)
  from create_loop_stock_ok [OF committed(1)]
  have "\<forall>pid c. updatedProducts l pid = Some c \<longrightarrow> stock_ok c"
    by simp
  with assms show ?thesis
    by (auto simp: committed(3) I2_def map_add_def split: option.splits)
qed

lemma create_keeps_items_positive:
  assumes "items_positive (db s)" and "valid_dto dto"
  shows "items_positive (db (fst (create fs dto s)))"
proof (cases rule: create_outcome [of fs dto s])
  case rolled_back
  with assms show ?thesis by (simp add: items_positive_def)
next
  case (committed l q2 q3)
  from create_loop_positive [OF committed(1)] assms(2)
  have "list_all (\<lambda>i. 1 \<le> quantity i) (orderItems l)"
    by (simp add: valid_dto_def)
  with assms(1) show ?thesis
    by (simp add: committed(3) items_positive_def)
qed

lemma restored_notin:
  "pid \<notin> set (map productId its) \<Longrightarrow> restored pid its = 0"
  by (induction its) (auto simp: restored_Cons)

lemma restored_positive:
  "list_all (\<lambda>i. 1 \<le> quantity i) its \<Longrightarrow> pid \<in> set (map productId its) \<Longrightarrow> 1 \<le> restored pid its"
proof (induction its)
  case Nil
  then show ?case by simp
next
  case (Cons i its)
  show ?case
  proof (cases "pid \<in> set (map productId its)")
    case True
    with Cons show ?thesis by (auto simp: restored_Cons)
  next
    case False
    with Cons.prems show ?thesis by (auto simp: restored_Cons restored_notin)
  qed
qed

lemma restocked_stock_ok:
  assumes "stock_ok p" and "list_all (\<lambda>i. 1 \<le> quantity i) its"
  shows "stock_ok (restocked pid its p)"
proof (cases "pid \<in> set (map productId its)")
  case True
  from restored_positive [OF assms(2) True] assms(1) True show ?thesis
    by (simp add: stock_ok_def restocked_def)
next
  case False
  with assms(1) show ?thesis
    by (simp add: stock_ok_def restocked_def restored_notin)
qed

lemma cancel_keeps:
  assumes "I2 (db s)" and "items_positive (db s)"
  shows "I2 (db (fst (cancel fs oid s))) \<and> items_positive (db (fst (cancel fs oid s)))"
proof (cases "cancel fs oid s")
  case (Pair s' r)
  show ?thesis
  proof (cases r)
    case (Inl e)
    with Pair assms show ?thesis by (auto dest!: cancel_Inl)
  next
    case (Inr v)
    with Pair have "cancel fs oid s = (s', Inr v)" by simp
    from cancel_Inr [OF this]
    have tabs: "product_table (db s') = fold restock (items_of (db s) oid) (product_table (db s))"
      "orderItem_table (db s') = orderItem_table (db s)"
      by auto
    have "list_all (\<lambda>i. 1 \<le> quantity i) (items_of (db s) oid)"
      using assms(2) by (simp add: items_positive_def items_of_def list_all_iff)
    with assms(1) have "I2 (db s')"
      by (auto simp: I2_def tabs(1) fold_restock restocked_stock_ok)
    with assms(2) tabs(2) Pair show ?thesis
      by (simp add: items_positive_def)
  qed
qed

lemma updateStatus_tables:
  assumes "new_status \<noteq> CANCELLED"
  shows "product_table (db (fst (updateStatus fs oid new_status s))) = product_table (db s) \<and>
     orderItem_table (db (fst (updateStatus fs oid new_status s))) = orderItem_table (db s) \<and>
     user_table (db (fst (updateStatus fs oid new_status s))) = user_table (db s)"
  using assms
  by (auto simp: updateStatus_def repository_save_Order_def split: sum.splits)

lemma updateStatus_keeps:
  assumes "I2 (db s)" and "items_positive (db s)"
  shows "I2 (db (fst (updateStatus fs oid new_status s))) \<and>
     items_positive (db (fst (updateStatus fs oid new_status s)))"
proof (cases "new_status = CANCELLED")
  case True
  with cancel_keeps [OF assms] show ?thesis by (simp add: updateStatus_def)
next
  case False
  from updateStatus_tables [OF this] assms show ?thesis
    by (simp add: I2_def items_positive_def)
qed

lemma reachable_keeps: "reachable s \<Longrightarrow> I2 (db s) \<and> items_positive (db s)"
proof (induction rule: reachable.induct)
  case (initial s)
  then show ?case by simp
next
  case (by_create s dto fs)
  then show ?case by (simp add: create_keeps_I2 create_keeps_items_positive)
next
  case (by_cancel s fs oid)
  then show ?case by (simp add: cancel_keeps)
next
  case (by_updateStatus s fs oid new_status)
  then show ?case by (simp add: updateStatus_keeps)
qed

text \<open>
  The item rows stay below the sequence of order ids, so the id that \<open>create\<close> takes
  is never one that item rows already carry.
\<close>

lemma create_try_seq:
  assumes "create_try dto q = (q', r)"
  shows "order_seq (sys q) \<le> order_seq (sys q')"
  using assms
  by (auto simp: create_try_def usersService_findOne_def manager_defs
      split: prod.splits sum.splits if_splits dest!: create_loop_frame)

lemma create_keeps_ids_below_seq:
  assumes "ids_below_seq s"
  shows "ids_below_seq (fst (create fs dto s))"
proof (cases rule: create_outcome [of fs dto s])
  case rolled_back
  with assms show ?thesis
    by (auto simp: ids_below_seq_def list_all_iff)
next
  case (committed l q2 q3)
  from create_loop_orderId [OF committed(1)]
  have "list_all (\<lambda>i. orderId i = order_seq s) (orderItems l)"
    by simp
  with assms show ?thesis
    by (auto simp: committed(3) ids_below_seq_def list_all_iff)
qed

lemma cancel_keeps_ids_below_seq:
  assumes "ids_below_seq s"
  shows "ids_below_seq (fst (cancel fs oid s))"
proof (cases "cancel fs oid s")
  case (Pair s' r)
  then show ?thesis
    using assms by (cases r) (auto dest!: cancel_Inl cancel_Inr simp: ids_below_seq_def)
qed

lemma updateStatus_keeps_ids_below_seq:
  assumes "ids_below_seq s"
  shows "ids_below_seq (fst (updateStatus fs oid new_status s))"
proof (cases "new_status = CANCELLED")
  case True
  with cancel_keeps_ids_below_seq [OF assms] show ?thesis by (simp add: updateStatus_def)
next
  case False
  with assms show ?thesis
    by (auto simp: updateStatus_def repository_save_Order_def ids_below_seq_def split: sum.splits)
qed

section \<open>Stock stays non-negative and the flag follows it\<close>

text \<open>
  C3. In every committed state that the engine reaches from a store whose products
  satisfy I2 and whose item rows have positive quantities, by creations (with a request
  that passed the DTO validation), cancellations and status updates under any schedule
  of faults, every product row has a non-negative stock and is flagged available
  exactly when its stock is positive.
\<close>

theorem stock_invariant:
  "reachable s \<Longrightarrow> product_table (db s) pid = Some p \<Longrightarrow>
     0 \<le> stock p \<and> isAvailable p = (0 < stock p)"
  using reachable_keeps [of s] by (auto simp: I2_def stock_ok_def)


theorem stock_invariant_witness:
  "reachable (fst (create [] (request 1 [line 10 5]) shop)) \<and>
   product_table (db (fst (create [] (request 1 [line 10 5]) shop))) 10 =
     Some (widget\<lparr>stock := 0, isAvailable := False\<rparr>) \<and>
   (0::int) \<le> stock (widget\<lparr>stock := 0, isAvailable := False\<rparr>) \<and>
   isAvailable (widget\<lparr>stock := 0, isAvailable := False\<rparr>) =
     (0 < stock (widget\<lparr>stock := 0, isAvailable := False\<rparr>)) \<and>
   reachable (fst (cancel [] 1 (fst (create [] (request 1 [line 10 5]) shop)))) \<and>
   product_table (db (fst (cancel [] 1 (fst (create [] (request 1 [line 10 5]) shop))))) 10 =
     Some widget \<and>
   0 \<le> stock widget \<and> isAvailable widget = (0 < stock widget)"
proof -
  let ?s1 = "fst (create [] (request 1 [line 10 5]) shop)"
  let ?s2 = "fst (cancel [] 1 ?s1)"
  have "I2 (db shop)" and "items_positive (db shop)"
    by (simp_all add: I2_def stock_ok_def items_positive_def shop_def widget_def)
  then have r0: "reachable shop"
    by (rule reachable.initial)
  have "valid_dto (request 1 [line 10 5])"
    by (simp add: valid_dto_def request_def line_def)
  with r0 have r1: "reachable ?s1"
    by (rule reachable.by_create)
  then have r2: "reachable ?s2"
    by (rule reachable.by_cancel)
  have p1: "product_table (db ?s1) 10 = Some (widget\<lparr>stock := 0, isAvailable := False\<rparr>)"
    by (simp add: service_defs shop_defs)
  have p2: "product_table (db ?s2) 10 = Some widget"
    by (simp add: service_defs shop_defs)
  from stock_invariant [OF r1 p1] stock_invariant [OF r2 p2] r1 r2 p1 p2
  show ?thesis by simp
qed

text \<open>
  The validation of the request is needed for the invariant: the engine itself accepts
  a line of quantity 0, and cancelling such an order marks its product available
  whatever its stock. Below, the order of quantity 0 is made first, a second order
  takes the whole stock, and the first is cancelled.
\<close>

lemma unvalidated_request_breaks_I2:
  "\<not> valid_dto (request 1 [line 10 0]) \<and>
   product_table (db (fst (cancel [] 1
      (fst (create [] (request 1 [line 10 5])
        (fst (create [] (request 1 [line 10 0]) shop))))))) 10 =
     Some (widget\<lparr>stock := 0\<rparr>) \<and>
   isAvailable (widget\<lparr>stock := 0\<rparr>)"
  by (simp add: service_defs shop_defs valid_dto_def)

section \<open>Status updates\<close>

text \<open>
  C8. A status update to \<open>CANCELLED\<close> is the cancellation, nothing else. For another
  target status: an order that is missing gives the \<open>NotFoundException\<close>, an order in
  \<open>CANCELLED\<close> gives the \<open>BadRequestException\<close>, both without a change of the
  state; any other order is returned and stored with the requested status, and only
  that row of the order table changes. In no case does an update to a status other than
  \<open>CANCELLED\<close> change a product or an item row.
\<close>

theorem updateStatus_contract:
  "updateStatus fs oid CANCELLED s = cancel fs oid s \<and>
   (new_status \<noteq> CANCELLED \<and> order_table (db s) oid = None \<longrightarrow>
      updateStatus fs oid new_status s = (s, Inl (NotFoundException (Order_not_found oid)))) \<and>
   (new_status \<noteq> CANCELLED \<and> order_table (db s) oid = Some ord \<and> status ord = CANCELLED \<longrightarrow>
      updateStatus fs oid new_status s = (s, Inl (BadRequestException Cannot_update_cancelled))) \<and>
   (new_status \<noteq> CANCELLED \<and> order_table (db s) oid = Some ord \<and> status ord \<noteq> CANCELLED \<longrightarrow>
      updateStatus fs oid new_status s =
        (s\<lparr>db := (db s)\<lparr>order_table := (order_table (db s))(oid \<mapsto> ord\<lparr>status := new_status\<rparr>)\<rparr>\<rparr>,
         Inr (oid, ord\<lparr>status := new_status\<rparr>, items_of (db s) oid))) \<and>
   (new_status \<noteq> CANCELLED \<longrightarrow>
      product_table (db (fst (updateStatus fs oid new_status s))) = product_table (db s) \<and>
      orderItem_table (db (fst (updateStatus fs oid new_status s))) = orderItem_table (db s))"
proof (intro conjI impI)
  show "updateStatus fs oid CANCELLED s = cancel fs oid s"
    by (simp add: updateStatus_def)
next
  assume "new_status \<noteq> CANCELLED \<and> order_table (db s) oid = None"
  then show "updateStatus fs oid new_status s = (s, Inl (NotFoundException (Order_not_found oid)))"
    by (simp add: updateStatus_def findOne_def)
next
  assume "new_status \<noteq> CANCELLED \<and> order_table (db s) oid = Some ord \<and> status ord = CANCELLED"
  then show "updateStatus fs oid new_status s = (s, Inl (BadRequestException Cannot_update_cancelled))"
    by (simp add: updateStatus_def findOne_def)
next
  assume "new_status \<noteq> CANCELLED \<and> order_table (db s) oid = Some ord \<and> status ord \<noteq> CANCELLED"
  then show "updateStatus fs oid new_status s =
        (s\<lparr>db := (db s)\<lparr>order_table := (order_table (db s))(oid \<mapsto> ord\<lparr>status := new_status\<rparr>)\<rparr>\<rparr>,
         Inr (oid, ord\<lparr>status := new_status\<rparr>, items_of (db s) oid))"
    by (simp add: updateStatus_def findOne_def repository_save_Order_def)
next
  assume "new_status \<noteq> CANCELLED"
  then show "product_table (db (fst (updateStatus fs oid new_status s))) = product_table (db s)"
    by (simp add: updateStatus_tables)
next
  assume "new_status \<noteq> CANCELLED"
  then show "orderItem_table (db (fst (updateStatus fs oid new_status s))) = orderItem_table (db s)"
    by (simp add: updateStatus_tables)
qed

theorem updateStatus_contract_witness:
  "OtherStatus ''SHIPPED'' \<noteq> CANCELLED \<and>
   order_table (db sold) 1 = Some \<lparr>userId = 1, total = 1998 / 100, status = PENDING\<rparr> \<and>
   updateStatus [] 1 (OtherStatus ''SHIPPED'') sold =
     (sold\<lparr>db := (db sold)\<lparr>order_table := (order_table (db sold))(1 \<mapsto>
         \<lparr>userId = 1, total = 1998 / 100, status = OtherStatus ''SHIPPED''\<rparr>)\<rparr>\<rparr>,
      Inr (1, \<lparr>userId = 1, total = 1998 / 100, status = OtherStatus ''SHIPPED''\<rparr>,
           [\<lparr>orderId = 1, productId = 10, quantity = 2, item_price = 999 / 100\<rparr>])) \<and>
   product_table (db (fst (updateStatus [] 1 (OtherStatus ''SHIPPED'') sold))) 10 =
     Some (widget\<lparr>stock := 3\<rparr>) \<and>
   order_table (db sold) 2 = None \<and>
   updateStatus [] 2 (OtherStatus ''SHIPPED'') sold = (sold, Inl (NotFoundException (Order_not_found 2))) \<and>
   order_table (db (fst (cancel [] 1 sold))) 1 =
     Some \<lparr>userId = 1, total = 1998 / 100, status = CANCELLED\<rparr> \<and>
   snd (updateStatus [] 1 PENDING (fst (cancel [] 1 sold))) =
     Inl (BadRequestException Cannot_update_cancelled) \<and>
   updateStatus [] 1 CANCELLED sold = cancel [] 1 sold"
proof -
  let ?ord = "\<lparr>userId = 1, total = 1998 / 100 :: rat, status = PENDING\<rparr>"
  let ?shipped = "OtherStatus ''SHIPPED''"
  let ?s1 = "fst (cancel [] 1 sold)"
  have ne: "?shipped \<noteq> CANCELLED" "PENDING \<noteq> CANCELLED"
    by simp_all
  have o1: "order_table (db sold) 1 = Some ?ord" and o2: "order_table (db sold) 2 = None"
    by (simp_all add: sold_def)
  have o3: "order_table (db ?s1) 1 = Some (?ord\<lparr>status := CANCELLED\<rparr>)"
    by (simp add: service_defs shop_defs)
  have its: "items_of (db sold) 1 =
      [\<lparr>orderId = 1, productId = 10, quantity = 2, item_price = 999 / 100\<rparr>]"
    by (simp add: items_of_def sold_def)
  note t = updateStatus_contract [of "[]" 1 sold ?shipped ?ord]
  have a: "updateStatus [] 1 CANCELLED sold = cancel [] 1 sold"
    using t by (rule conjunct1)
  have b: "updateStatus [] 2 ?shipped sold = (sold, Inl (NotFoundException (Order_not_found 2)))"
    using updateStatus_contract [of "[]" 2 sold ?shipped ?ord] ne o2 by simp
  have c: "updateStatus [] 1 ?shipped sold =
        (sold\<lparr>db := (db sold)\<lparr>order_table := (order_table (db sold))(1 \<mapsto> ?ord\<lparr>status := ?shipped\<rparr>)\<rparr>\<rparr>,
         Inr (1, ?ord\<lparr>status := ?shipped\<rparr>, items_of (db sold) 1))"
    using t ne o1 by simp
  have d: "product_table (db (fst (updateStatus [] 1 ?shipped sold))) = product_table (db sold)"
    using t ne by simp
  have e: "updateStatus [] 1 PENDING ?s1 = (?s1, Inl (BadRequestException Cannot_update_cancelled))"
    using updateStatus_contract [of "[]" 1 ?s1 PENDING "?ord\<lparr>status := CANCELLED\<rparr>"] ne o3 by simp
  have f: "product_table (db sold) 10 = Some (widget\<lparr>stock := 3\<rparr>)"
    by (simp add: sold_def)
  show ?thesis
    using ne o1 o2 o3 a b c d e f its by simp
qed

section \<open>The cache of create and the rows it locks\<close>

lemma get_product_locked:
  "get_product pid l q = (q', r) \<Longrightarrow>
     locked q' = locked q \<or> (updatedProducts l pid = None \<and> locked q' = locked q @ [ProductRow pid])"
  by (cases r) (auto simp: get_product_def manager_defs split: option.splits)

lemma create_loop_locked:
  assumes "create_loop oid ds l q = (q', r)" and "reads_cached l q"
  shows "distinct (locked q') \<and> (\<forall>oid. OrderRow oid \<notin> set (locked q'))"
  using assms
proof (induction ds arbitrary: l q)
  case Nil
  then show ?case by (simp add: reads_cached_def)
next
  case (Cons d ds)
  obtain q1 r1 where g: "get_product (dto_productId d) l q = (q1, r1)"
    by (cases "get_product (dto_productId d) l q")
  from get_product_locked [OF g] Cons.prems(2)
  have d1: "distinct (locked q1) \<and> (\<forall>oid. OrderRow oid \<notin> set (locked q1))"
    and sub: "\<forall>pid. ProductRow pid \<in> set (locked q1) \<longrightarrow>
        pid \<in> dom (updatedProducts l) \<or> pid = dto_productId d"
    by (auto simp: reads_cached_def)
  show ?case
  proof (cases r1)
    case (Inl e)
    with g Cons.prems(1) d1 show ?thesis by auto
  next
    case (Inr found)
    show ?thesis
    proof (cases "reserve oid d found l")
      case (Inl e)
      with g Inr Cons.prems(1) d1 show ?thesis by auto
    next
      case r: (Inr l1)
      then obtain p where "l1 = add_item oid d p l"
        by (auto simp: reserve_Inr)
      with d1 sub have "reads_cached l1 q1"
        by (auto simp: reads_cached_def)
      moreover from g Inr r Cons.prems(1) have "create_loop oid ds l1 q1 = (q', r)"
        by simp
      ultimately show ?thesis
        by (intro Cons.IH [of l1 q1]) simp_all
    qed
  qed
qed

lemma create_try_locked:
  assumes "create_try dto q = (q', r)" and "locked q = []"
  shows "distinct (locked q') \<and> (\<forall>oid. OrderRow oid \<notin> set (locked q'))"
proof -
  have start: "reads_cached empty_locals q2" if "locked q2 = []" for q2
    using that by (simp add: reads_cached_def)
  show ?thesis
    using assms
    by (auto simp: create_try_def usersService_findOne_def manager_defs
        split: prod.splits sum.splits if_splits
        dest!: create_loop_locked [OF _ start])
qed

section \<open>Requests that ask for more than the stock\<close>

lemma create_loop_keeps_no_faults:
  "create_loop oid ds l q = (q', r) \<Longrightarrow> no_faults (faults q) \<Longrightarrow> no_faults (faults q')"
proof (induction ds arbitrary: l q)
  case Nil
  then show ?case by simp
next
  case (Cons d ds)
  from get_product_no_faults [OF Cons.prems(2), of "dto_productId d" l]
  obtain q1 where g: "get_product (dto_productId d) l q = (q1, Inr (tx_products l (view q) (dto_productId d)))"
    and nf: "no_faults (faults q1)"
    by blast
  show ?case
  proof (cases "reserve oid d (tx_products l (view q) (dto_productId d)) l")
    case (Inl e)
    with g Cons.prems(1) nf show ?thesis by auto
  next
    case (Inr l1)
    with g Cons.prems(1) have "create_loop oid ds l1 q1 = (q', r)" by simp
    from Cons.IH [OF this nf] show ?thesis .
  qed
qed

lemma reserve_Inl:
  "reserve oid d (Some p) l = Inl e \<Longrightarrow> \<exists>m. e = BadRequestException m"
  by (auto simp: reserve_def split: if_splits)

lemma create_loop_no_faults_Inl:
  assumes "create_loop oid ds l q = (q', Inl e)" and "no_faults (faults q)"
    and "\<forall>d\<in>set ds. tx_products l (view q) (dto_productId d) \<noteq> None"
  shows "\<exists>m. e = BadRequestException m"
  using assms
proof (induction ds arbitrary: l q)
  case Nil
  then show ?case by simp
next
  case (Cons d ds)
  from get_product_no_faults [OF Cons.prems(2), of "dto_productId d" l]
  obtain q1 where g: "get_product (dto_productId d) l q = (q1, Inr (tx_products l (view q) (dto_productId d)))"
    and v: "view q1 = view q" and nf: "no_faults (faults q1)"
    by blast
  from Cons.prems(3) obtain p where p: "tx_products l (view q) (dto_productId d) = Some p"
    by auto
  show ?case
  proof (cases "reserve oid d (Some p) l")
    case (Inl e')
    with g p Cons.prems(1) have "e = e'" by simp
    with Inl show ?thesis by (auto dest: reserve_Inl)
  next
    case (Inr l1)
    then have l1: "l1 = add_item oid d p l"
      by (auto simp: reserve_Inr)
    from g p Inr Cons.prems(1) have run: "create_loop oid ds l1 q1 = (q', Inl e)" by simp
    have "\<forall>d'\<in>set ds. tx_products l1 (view q1) (dto_productId d') \<noteq> None"
      using Cons.prems(3) v by (auto simp: l1 tx_products_add_item)
    from Cons.IH [OF run nf this] show ?thesis .
  qed
qed

lemma create_loop_within_stock:
  assumes "create_loop oid ds empty_locals q = (q', Inr l')"
    and "pid \<in> set (map dto_productId ds)" and "product_table (view q) pid = Some p"
  shows "requested pid ds \<le> stock p"
proof -
  from create_loop_cached [OF assms(1), of pid] assms(2)
  obtain c where c: "updatedProducts l' pid = Some c"
    by auto
  from create_loop_stock_ok [OF assms(1)] c have "stock_ok c"
    by simp
  moreover from create_loop_tx_products [OF assms(1), of pid] c assms(3)
  have "c = reserved pid ds p"
    by (simp add: tx_products_def)
  ultimately show ?thesis
    by (simp add: stock_ok_def reserved_def)
qed

lemma create_within_stock:
  assumes "create fs dto s = (s', Inr r)"
    and "pid \<in> set (map dto_productId (dto_items dto))" and "product_table (db s) pid = Some p"
  shows "requested pid (dto_items dto) \<le> stock p"
proof -
  from create_Inr [OF assms(1)] obtain l q2 q3 where
    loop: "create_loop (order_seq s) (dto_items dto) empty_locals q2 = (q3, Inr l)"
    and v2: "product_table (view q2) = product_table (db s)"
    by auto
  from create_loop_within_stock [OF loop assms(2)] v2 assms(3) show ?thesis
    by simp
qed

lemma create_no_faults_Inl:
  assumes "create fs dto s = (s', Inl e)" and "no_faults fs"
    and "dto_userId dto \<in> user_table (db s)"
    and "\<forall>d\<in>set (dto_items dto). product_table (db s) (dto_productId d) \<noteq> None"
  shows "\<exists>m. e = BadRequestException m"
proof -
  let ?ord = "\<lparr>userId = dto_userId dto, total = 0, status = PENDING\<rparr>"
  let ?q2 = "advance (startTransaction fs s)
      \<lparr>sys := s\<lparr>order_seq := order_seq s + 1\<rparr>,
        view := (db s)\<lparr>order_table := (order_table (db s))(order_seq s \<mapsto> ?ord)\<rparr>\<rparr>"
  have nf2: "no_faults (faults ?q2)"
    using assms(2) by (simp add: advance_def startTransaction_def)
  obtain q3 r3 where loop: "create_loop (order_seq s) (dto_items dto) empty_locals ?q2 = (q3, r3)"
    by (cases "create_loop (order_seq s) (dto_items dto) empty_locals ?q2")
  from create_loop_keeps_no_faults [OF loop nf2] have nf3: "no_faults (faults q3)" .
  have body: "create_try dto (startTransaction fs s) =
      (case r3 of Inl e \<Rightarrow> (q3, Inl e)
       | Inr l \<Rightarrow>
           (case manager_save_OrderItems (orderItems l) q3 of
              (q4, Inl e) \<Rightarrow> (q4, Inl e)
            | (q4, Inr u) \<Rightarrow>
           (case manager_save_Products (updatedProducts l) q4 of
              (q5, Inl e) \<Rightarrow> (q5, Inl e)
            | (q5, Inr u) \<Rightarrow>
           (case manager_save_Order (order_seq s)
                   \<lparr>userId = dto_userId dto, total = loop_total l, status = PENDING\<rparr> q5 of
              (q6, Inl e) \<Rightarrow> (q6, Inl e)
            | (q6, Inr u) \<Rightarrow>
           (case commitTransaction q6 of
              (q7, Inl e) \<Rightarrow> (q7, Inl e)
            | (q7, Inr u) \<Rightarrow> (q7, Inr (order_seq s)))))))"
    using assms(2,3) loop
    by (simp add: create_try_def usersService_findOne_def manager_insert_Order_def
        manager_call_no_faults startTransaction_def advance_def)
  show ?thesis
  proof (cases r3)
    case (Inl e3)
    with body assms(1) have "e = e3"
      by (simp add: create_defs)
    moreover from loop Inl nf2 assms(4) have "\<exists>m. e3 = BadRequestException m"
      by (intro create_loop_no_faults_Inl [of "order_seq s" "dto_items dto" empty_locals ?q2 q3 e3])
        (simp_all add: startTransaction_def advance_def)
    ultimately show ?thesis by simp
  next
    case (Inr l)
    with body nf3 have "\<exists>q7. create_try dto (startTransaction fs s) = (q7, Inr (order_seq s)) \<and>
        no_faults (faults q7)"
      by (simp add: manager_save_OrderItems_def manager_save_Products_def manager_save_Order_def
          commitTransaction_def manager_call_no_faults)
    then obtain q7 where q7: "create_try dto (startTransaction fs s) = (q7, Inr (order_seq s))"
      and nf7: "no_faults (faults q7)"
      by blast
    from create_committed [OF q7]
    have "create fs dto s = (sys q7, repository_findOne (order_seq s) q7)"
      and "order_table (db (sys q7)) (order_seq s) \<noteq> None"
      by auto
    with nf7 assms(1) show ?thesis
      by (auto simp: repository_findOne_def findOne_def)
  qed
qed


text \<open>
  C4. In the transaction of \<open>create\<close>, whatever the request and the faults, no row is
  read under lock twice: a product that a line has passed is in \<open>updatedProducts\<close>, and
  a later line of the same product takes it from there. The stock check of a line is
  made on that value, already decremented by the earlier lines: an order that is
  returned has asked of no product more than its stored stock, all its lines together.
  Hence a request in which the lines of some product ask together for more than its
  stock, made by a user that exists, for products that exist, with no fault, throws a
  \<open>BadRequestException\<close>, and the committed tables are as before.
\<close>

theorem create_duplicate_lines:
  "distinct (locked (fst (create_try dto (startTransaction fs s)))) \<and>
   (create fs dto s = (s', Inr r) \<and> pid \<in> set (map dto_productId (dto_items dto)) \<and>
    product_table (db s) pid = Some p \<longrightarrow> requested pid (dto_items dto) \<le> stock p) \<and>
   (no_faults fs \<and> dto_userId dto \<in> user_table (db s) \<and>
    list_all (\<lambda>d. product_table (db s) (dto_productId d) \<noteq> None) (dto_items dto) \<and>
    pid \<in> set (map dto_productId (dto_items dto)) \<and> product_table (db s) pid = Some p \<and>
    stock p < requested pid (dto_items dto) \<longrightarrow>
      (\<exists>m. snd (create fs dto s) = Inl (BadRequestException m)) \<and>
      db (fst (create fs dto s)) = db s)"
proof (intro conjI impI)
  obtain q' r' where run: "create_try dto (startTransaction fs s) = (q', r')"
    by (cases "create_try dto (startTransaction fs s)")
  have "locked (startTransaction fs s) = []"
    by (simp add: startTransaction_def)
  from create_try_locked [OF run this] have "distinct (locked q')"
    by (rule conjunct1)
  then show "distinct (locked (fst (create_try dto (startTransaction fs s))))"
    by (simp add: run)
next
  assume "create fs dto s = (s', Inr r) \<and> pid \<in> set (map dto_productId (dto_items dto)) \<and>
    product_table (db s) pid = Some p"
  then show "requested pid (dto_items dto) \<le> stock p"
    using create_within_stock [of fs dto s s' r pid p] by simp
next
  assume a: "no_faults fs \<and> dto_userId dto \<in> user_table (db s) \<and>
    list_all (\<lambda>d. product_table (db s) (dto_productId d) \<noteq> None) (dto_items dto) \<and>
    pid \<in> set (map dto_productId (dto_items dto)) \<and> product_table (db s) pid = Some p \<and>
    stock p < requested pid (dto_items dto)"
  obtain s2 r2 where c: "create fs dto s = (s2, r2)"
    by (cases "create fs dto s")
  show "\<exists>m. snd (create fs dto s) = Inl (BadRequestException m)"
  proof (cases r2)
    case (Inl e)
    with c a create_no_faults_Inl [of fs dto s s2 e] show ?thesis
      by (auto simp: list_all_iff)
  next
    case (Inr v)
    with c a create_within_stock [of fs dto s s2 v pid p] show ?thesis
      by simp
  qed
next
  assume a: "no_faults fs \<and> dto_userId dto \<in> user_table (db s) \<and>
    list_all (\<lambda>d. product_table (db s) (dto_productId d) \<noteq> None) (dto_items dto) \<and>
    pid \<in> set (map dto_productId (dto_items dto)) \<and> product_table (db s) pid = Some p \<and>
    stock p < requested pid (dto_items dto)"
  obtain s2 r2 where c: "create fs dto s = (s2, r2)"
    by (cases "create fs dto s")
  show "db (fst (create fs dto s)) = db s"
  proof (cases r2)
    case (Inl e)
    with c a create_no_faults_Inl [of fs dto s s2 e] have "isHttpException e"
      by (auto simp: list_all_iff)
    with c Inl show ?thesis by (auto dest: create_Inl)
  next
    case (Inr v)
    with c a create_within_stock [of fs dto s s2 v pid p] show ?thesis
      by simp
  qed
qed

theorem create_duplicate_lines_witness:
  "locked (fst (create_try (request 1 [line 10 3, line 10 3]) (startTransaction [] shop))) = [ProductRow 10] \<and>
   distinct (locked (fst (create_try (request 1 [line 10 3, line 10 3]) (startTransaction [] shop)))) \<and>
   no_faults [] \<and> 1 \<in> user_table (db shop) \<and> product_table (db shop) 10 = Some widget \<and>
   stock widget < requested 10 [line 10 3, line 10 3] \<and>
   snd (create [] (request 1 [line 10 3, line 10 3]) shop) =
     Inl (BadRequestException (Not_enough_stock ''widget'')) \<and>
   db (fst (create [] (request 1 [line 10 3, line 10 3]) shop)) = db shop \<and>
   snd (create [] (request 1 [line 10 3, line 10 2]) shop) =
     Inr (1, \<lparr>userId = 1, total = 4995 / 100, status = PENDING\<rparr>,
          [\<lparr>orderId = 1, productId = 10, quantity = 3, item_price = 999 / 100\<rparr>,
           \<lparr>orderId = 1, productId = 10, quantity = 2, item_price = 999 / 100\<rparr>]) \<and>
   requested 10 [line 10 3, line 10 2] \<le> stock widget"
proof -
  let ?dup = "request 1 [line 10 3, line 10 3]"
  let ?fit = "request 1 [line 10 3, line 10 2]"
  have trace: "locked (fst (create_try ?dup (startTransaction [] shop))) = [ProductRow 10]"
    by (simp add: service_defs shop_defs)
  have hyps: "no_faults [] \<and> dto_userId ?dup \<in> user_table (db shop) \<and>
    list_all (\<lambda>d. product_table (db shop) (dto_productId d) \<noteq> None) (dto_items ?dup) \<and>
    10 \<in> set (map dto_productId (dto_items ?dup)) \<and> product_table (db shop) 10 = Some widget \<and>
    stock widget < requested 10 (dto_items ?dup)"
    by (simp add: no_faults_def shop_defs requested_def)
  have err: "snd (create [] ?dup shop) = Inl (BadRequestException (Not_enough_stock ''widget''))"
    by (simp add: service_defs shop_defs)
  have ok: "create [] ?fit shop =
     (fst (create [] ?fit shop),
      Inr (1, \<lparr>userId = 1, total = 4995 / 100, status = PENDING\<rparr>,
          [\<lparr>orderId = 1, productId = 10, quantity = 3, item_price = 999 / 100\<rparr>,
           \<lparr>orderId = 1, productId = 10, quantity = 2, item_price = 999 / 100\<rparr>]))"
    by (simp add: service_defs shop_defs)
  have fit: "10 \<in> set (map dto_productId (dto_items ?fit)) \<and> product_table (db shop) 10 = Some widget"
    by (simp add: shop_defs)
  note t = create_duplicate_lines [of ?dup "[]" shop _ _ 10 widget]
  have d: "distinct (locked (fst (create_try ?dup (startTransaction [] shop))))"
    using t by (rule conjunct1)
  have same: "db (fst (create [] ?dup shop)) = db shop"
    using t [THEN conjunct2, THEN conjunct2, THEN mp, OF hyps] by (rule conjunct2)
  have within: "requested 10 (dto_items ?fit) \<le> stock widget"
    using create_duplicate_lines [of ?fit "[]" shop, THEN conjunct2, THEN conjunct1, THEN mp,
        OF conjI [OF ok fit]] .
  have user: "1 \<in> user_table (db shop)" and row: "product_table (db shop) 10 = Some widget"
    by (simp_all add: shop_def)
  have more: "stock widget < requested 10 [line 10 3, line 10 3]"
    using hyps by (simp add: request_def)
  have ok': "snd (create [] ?fit shop) =
     Inr (1, \<lparr>userId = 1, total = 4995 / 100, status = PENDING\<rparr>,
          [\<lparr>orderId = 1, productId = 10, quantity = 3, item_price = 999 / 100\<rparr>,
           \<lparr>orderId = 1, productId = 10, quantity = 2, item_price = 999 / 100\<rparr>])"
    using ok by (metis snd_conv)
  have within': "requested 10 [line 10 3, line 10 2] \<le> stock widget"
    using within by (simp add: request_def)
  show ?thesis
    by (intro conjI trace d hyps [THEN conjunct1] user row more err same ok' within')
qed

section \<open>Faults that are not domain errors\<close>

text \<open>
  C6. Both transactions roll back on every exception and hand a \<open>NotFoundException\<close> or
  a \<open>BadRequestException\<close> on as it is. A fault that is not an \<open>HttpException\<close> is
  logged and replaced by the \<open>InternalServerErrorException\<close> in \<open>cancel\<close> only:
  \<open>create\<close> throws the fault itself and logs nothing. Here the fault strikes the first
  call of the transaction.
\<close>

theorem create_rethrows_fault:
  "dto_userId dto \<in> user_table (db s) \<longrightarrow>
     create (Some m # fs) dto s = (s, Inl (Error m)) \<and>
     cancel (Some m # fs) oid s =
       (s\<lparr>logger := logger s @ [Error m]\<rparr>, Inl (InternalServerErrorException Failed_to_cancel_order))"
proof
  assume "dto_userId dto \<in> user_table (db s)"
  then have "create (Some m # fs) dto s = (s, Inl (Error m))"
    by (simp add: create_defs create_try_def usersService_findOne_def manager_insert_Order_def
        manager_call_def pending_fault_def advance_def startTransaction_def
        rollbackTransaction_def release_def)
  moreover have "cancel (Some m # fs) oid s =
       (s\<lparr>logger := logger s @ [Error m]\<rparr>, Inl (InternalServerErrorException Failed_to_cancel_order))"
    by (simp add: cancel_def cancel_try_def manager_lock_Order_def
        manager_call_def pending_fault_def advance_def startTransaction_def
        rollbackTransaction_def release_def logger_error_def)
  ultimately show "create (Some m # fs) dto s = (s, Inl (Error m)) \<and>
     cancel (Some m # fs) oid s =
       (s\<lparr>logger := logger s @ [Error m]\<rparr>, Inl (InternalServerErrorException Failed_to_cancel_order))"
    by simp
qed

theorem create_rethrows_fault_witness:
  "dto_userId (request 1 [line 10 2]) \<in> user_table (db shop) \<and>
   create [Some ''connection lost''] (request 1 [line 10 2]) shop = (shop, Inl (Error ''connection lost'')) \<and>
   logger (fst (create [Some ''connection lost''] (request 1 [line 10 2]) shop)) = [] \<and>
   cancel [Some ''connection lost''] 1 sold =
     (sold\<lparr>logger := [Error ''connection lost'']\<rparr>,
      Inl (InternalServerErrorException Failed_to_cancel_order))"
proof -
  have user: "dto_userId (request 1 [line 10 2]) \<in> user_table (db shop)"
    by (simp add: shop_defs)
  note t = create_rethrows_fault [of "request 1 [line 10 2]" _ "''connection lost''" "[]", THEN mp]
  have c: "create [Some ''connection lost''] (request 1 [line 10 2]) shop = (shop, Inl (Error ''connection lost''))"
    using t [of shop, OF user] by (rule conjunct1)
  have "dto_userId (request 1 [line 10 2]) \<in> user_table (db sold)"
    by (simp add: shop_defs)
  from t [of sold 1, OF this]
  have k: "cancel [Some ''connection lost''] 1 sold =
     (sold\<lparr>logger := [Error ''connection lost'']\<rparr>,
      Inl (InternalServerErrorException Failed_to_cancel_order))"
    by (simp add: sold_def)
  have "logger (fst (create [Some ''connection lost''] (request 1 [line 10 2]) shop)) = []"
    by (simp add: c) (simp add: shop_def)
  with user c k show ?thesis by simp
qed

section \<open>Lines of quantity zero or less\<close>

text \<open>
  The second line of the request below has quantity 0 and names product 10, which exists
  and is available in the shop, and the request without that line is accepted. With it
  the request fails: the first line takes the stock to 0, and the product in
  \<open>updatedProducts\<close> is no longer available when the second line is checked.
\<close>

theorem zero_line_counterexample:
  "product_table (db shop) 10 = Some widget \<and> isAvailable widget \<and>
   line 10 0 \<in> set (dto_items (request 1 [line 10 5, line 10 0])) \<and>
   dto_quantity (line 10 0) = 0 \<and>
   snd (create [] (request 1 [line 10 5]) shop) =
     Inr (1, \<lparr>userId = 1, total = 4995 / 100, status = PENDING\<rparr>,
          [\<lparr>orderId = 1, productId = 10, quantity = 5, item_price = 999 / 100\<rparr>]) \<and>
   snd (create [] (request 1 [line 10 5, line 10 0]) shop) =
     Inl (BadRequestException (Product_not_available ''widget'')) \<and>
   db (fst (create [] (request 1 [line 10 5, line 10 0]) shop)) = db shop"
  by (simp add: service_defs shop_defs)

text \<open>
  C9, amended. The engine does not check that a quantity is positive. A line of quantity
  zero or less passes its checks whenever the product, as the transaction has it at that
  line (after the earlier lines of the request), exists, is available and has a
  non-negative stock, and the read of the product does not fault: the item is made with
  that quantity and the product's price, the total grows by price times quantity
  (nothing for zero), the stock is lowered by the quantity (unchanged for zero, raised for
  a negative one), and the loop goes on with the next line. A request of that single
  line, by a user that exists, with no fault, returns the order and commits exactly
  that. (A line of quantity zero for a product that earlier lines of the same request
  have taken to stock zero fails: the product is no longer available.)
\<close>

theorem nonpositive_line_passes:
  "(tx_products l (view q) (dto_productId d) = Some p \<and> isAvailable p \<and> 0 \<le> stock p \<and>
    dto_quantity d \<le> 0 \<and> no_faults (faults q) \<longrightarrow>
      (\<exists>q1. create_loop oid (d # rest) l q = create_loop oid rest (add_item oid d p l) q1 \<and>
            view q1 = view q \<and> sys q1 = sys q) \<and>
      orderItems (add_item oid d p l) = orderItems l @
        [\<lparr>orderId = oid, productId = dto_productId d, quantity = dto_quantity d, item_price = price p\<rparr>] \<and>
      loop_total (add_item oid d p l) = loop_total l + price p * of_int (dto_quantity d) \<and>
      tx_products (add_item oid d p l) (view q) (dto_productId d) =
        Some (p\<lparr>stock := stock p - dto_quantity d, isAvailable := (0 < stock p - dto_quantity d)\<rparr>) \<and>
      stock p \<le> stock p - dto_quantity d) \<and>
   (no_faults fs \<and> uid \<in> user_table (db s) \<and> product_table (db s) pid = Some p \<and>
    isAvailable p \<and> 0 \<le> stock p \<and> n \<le> 0 \<longrightarrow>
      (\<exists>s'. create fs (request uid [line pid n]) s =
          (s', Inr (order_seq s, \<lparr>userId = uid, total = price p * of_int n, status = PENDING\<rparr>,
                    items_of (db s') (order_seq s))) \<and>
         orderItem_table (db s') = orderItem_table (db s) @
           [\<lparr>orderId = order_seq s, productId = pid, quantity = n, item_price = price p\<rparr>] \<and>
         product_table (db s') pid =
           Some (p\<lparr>stock := stock p - n, isAvailable := (0 < stock p - n)\<rparr>)))"
proof (rule conjI; rule impI)
  assume a: "tx_products l (view q) (dto_productId d) = Some p \<and> isAvailable p \<and> 0 \<le> stock p \<and>
    dto_quantity d \<le> 0 \<and> no_faults (faults q)"
  then have nf: "no_faults (faults q)" by simp
  from get_product_no_faults [OF nf, of "dto_productId d" l] a
  obtain q1 where g: "get_product (dto_productId d) l q = (q1, Inr (Some p))"
    and f: "view q1 = view q" "sys q1 = sys q"
    by auto
  from a have "reserve oid d (Some p) l = Inr (add_item oid d p l)"
    by (simp add: reserve_def)
  with g have "create_loop oid (d # rest) l q = create_loop oid rest (add_item oid d p l) q1"
    by simp
  with f have "\<exists>q1. create_loop oid (d # rest) l q = create_loop oid rest (add_item oid d p l) q1 \<and>
            view q1 = view q \<and> sys q1 = sys q"
    by blast
  with a show "(\<exists>q1. create_loop oid (d # rest) l q = create_loop oid rest (add_item oid d p l) q1 \<and>
            view q1 = view q \<and> sys q1 = sys q) \<and>
      orderItems (add_item oid d p l) = orderItems l @
        [\<lparr>orderId = oid, productId = dto_productId d, quantity = dto_quantity d, item_price = price p\<rparr>] \<and>
      loop_total (add_item oid d p l) = loop_total l + price p * of_int (dto_quantity d) \<and>
      tx_products (add_item oid d p l) (view q) (dto_productId d) =
        Some (p\<lparr>stock := stock p - dto_quantity d, isAvailable := (0 < stock p - dto_quantity d)\<rparr>) \<and>
      stock p \<le> stock p - dto_quantity d"
    by (simp add: tx_products_add_item)
next
  assume a: "no_faults fs \<and> uid \<in> user_table (db s) \<and> product_table (db s) pid = Some p \<and>
    isAvailable p \<and> 0 \<le> stock p \<and> n \<le> 0"
  then show "\<exists>s'. create fs (request uid [line pid n]) s =
          (s', Inr (order_seq s, \<lparr>userId = uid, total = price p * of_int n, status = PENDING\<rparr>,
                    items_of (db s') (order_seq s))) \<and>
         orderItem_table (db s') = orderItem_table (db s) @
           [\<lparr>orderId = order_seq s, productId = pid, quantity = n, item_price = price p\<rparr>] \<and>
         product_table (db s') pid =
           Some (p\<lparr>stock := stock p - n, isAvailable := (0 < stock p - n)\<rparr>)"
    by (simp add: create_defs create_try_def startTransaction_def release_def
        usersService_findOne_def manager_call_no_faults manager_defs
        get_product_def reserve_def add_item_def empty_locals_def findOne_def
        request_def line_def)
qed


theorem nonpositive_line_passes_witness:
  "no_faults [] \<and> 1 \<in> user_table (db shop) \<and> product_table (db shop) 10 = Some widget \<and>
   isAvailable widget \<and> 0 \<le> stock widget \<and>
   snd (create [] (request 1 [line 10 0]) shop) =
     Inr (1, \<lparr>userId = 1, total = 0, status = PENDING\<rparr>,
          [\<lparr>orderId = 1, productId = 10, quantity = 0, item_price = 999 / 100\<rparr>]) \<and>
   product_table (db (fst (create [] (request 1 [line 10 0]) shop))) 10 = Some widget \<and>
   snd (create [] (request 1 [line 10 (- 2)]) shop) =
     Inr (1, \<lparr>userId = 1, total = - (1998 / 100), status = PENDING\<rparr>,
          [\<lparr>orderId = 1, productId = 10, quantity = - 2, item_price = 999 / 100\<rparr>]) \<and>
   product_table (db (fst (create [] (request 1 [line 10 (- 2)]) shop))) 10 =
     Some (widget\<lparr>stock := 7\<rparr>) \<and>
   tx_products (add_item 1 (line 10 2) widget empty_locals) (view (startTransaction [] shop)) 10 =
     Some (widget\<lparr>stock := 3\<rparr>) \<and>
   snd (create_loop 1 [line 10 0] (add_item 1 (line 10 2) widget empty_locals) (startTransaction [] shop)) =
     Inr (add_item 1 (line 10 0) (widget\<lparr>stock := 3\<rparr>)
            (add_item 1 (line 10 2) widget empty_locals))"
proof -
  let ?l = "add_item 1 (line 10 2) widget empty_locals"
  let ?q = "startTransaction [] shop"
  let ?p = "widget\<lparr>stock := 3\<rparr>"
  have nf: "no_faults []" and user: "1 \<in> user_table (db shop)"
    and row: "product_table (db shop) 10 = Some widget"
    and av: "isAvailable widget" and st: "0 \<le> stock widget"
    by (simp_all add: no_faults_def shop_def widget_def)
  have h0: "no_faults [] \<and> 1 \<in> user_table (db shop) \<and> product_table (db shop) 10 = Some widget \<and>
      isAvailable widget \<and> 0 \<le> stock widget \<and> (0::int) \<le> 0"
    using nf user row av st by simp
  have h2: "no_faults [] \<and> 1 \<in> user_table (db shop) \<and> product_table (db shop) 10 = Some widget \<and>
      isAvailable widget \<and> 0 \<le> stock widget \<and> (- 2::int) \<le> 0"
    using nf user row av st by simp
  from nonpositive_line_passes [THEN conjunct2, THEN mp, OF h0]
  obtain s0 where s0: "create [] (request 1 [line 10 0]) shop =
          (s0, Inr (order_seq shop, \<lparr>userId = 1, total = price widget * of_int 0, status = PENDING\<rparr>,
                    items_of (db s0) (order_seq shop)))"
     "orderItem_table (db s0) = orderItem_table (db shop) @
           [\<lparr>orderId = order_seq shop, productId = 10, quantity = 0, item_price = price widget\<rparr>]"
     "product_table (db s0) 10 = Some (widget\<lparr>stock := stock widget - 0, isAvailable := (0 < stock widget - 0)\<rparr>)"
    by (elim exE conjE)
  have r0: "snd (create [] (request 1 [line 10 0]) shop) =
     Inr (1, \<lparr>userId = 1, total = 0, status = PENDING\<rparr>,
          [\<lparr>orderId = 1, productId = 10, quantity = 0, item_price = 999 / 100\<rparr>])"
    by (simp add: s0(1)) (simp add: items_of_def s0(2), simp add: shop_def widget_def)
  have p0: "product_table (db (fst (create [] (request 1 [line 10 0]) shop))) 10 = Some widget"
    by (simp add: s0(1,3)) (simp add: widget_def)
  from nonpositive_line_passes [THEN conjunct2, THEN mp, OF h2]
  obtain s2 where s2: "create [] (request 1 [line 10 (- 2)]) shop =
          (s2, Inr (order_seq shop, \<lparr>userId = 1, total = price widget * of_int (- 2), status = PENDING\<rparr>,
                    items_of (db s2) (order_seq shop)))"
     "orderItem_table (db s2) = orderItem_table (db shop) @
           [\<lparr>orderId = order_seq shop, productId = 10, quantity = - 2, item_price = price widget\<rparr>]"
     "product_table (db s2) 10 =
        Some (widget\<lparr>stock := stock widget - (- 2), isAvailable := (0 < stock widget - (- 2))\<rparr>)"
    by (elim exE conjE)
  have r2: "snd (create [] (request 1 [line 10 (- 2)]) shop) =
     Inr (1, \<lparr>userId = 1, total = - (1998 / 100), status = PENDING\<rparr>,
          [\<lparr>orderId = 1, productId = 10, quantity = - 2, item_price = 999 / 100\<rparr>])"
    by (simp add: s2(1)) (simp add: items_of_def s2(2), simp add: shop_def widget_def)
  have p2: "product_table (db (fst (create [] (request 1 [line 10 (- 2)]) shop))) 10 =
     Some (widget\<lparr>stock := 7\<rparr>)"
    by (simp add: s2(1,3)) (simp add: widget_def)
  have tx: "tx_products ?l (view ?q) 10 = Some ?p"
    by (simp add: tx_products_def add_item_def line_def empty_locals_def widget_def)
  have h: "tx_products ?l (view ?q) (dto_productId (line 10 0)) = Some ?p \<and> isAvailable ?p \<and>
      0 \<le> stock ?p \<and> dto_quantity (line 10 0) \<le> 0 \<and> no_faults (faults ?q)"
    using tx by (simp add: line_def widget_def startTransaction_def no_faults_def)
  from nonpositive_line_passes [of ?l ?q "line 10 0" ?p 1 "[]", THEN conjunct1, THEN mp, OF h, THEN conjunct1]
  have loop: "snd (create_loop 1 [line 10 0] ?l ?q) = Inr (add_item 1 (line 10 0) ?p ?l)"
    by (elim exE conjE) simp
  show ?thesis
    by (intro conjI nf user row av st r0 p0 r2 p2 tx loop)
qed

end
